theory Spec2Isabelle
  imports Complex_Main
begin

section \<open>Harmonic regression of a Landsat NDVI time series\<close>

text \<open>
  The script \<^verbatim>\<open>Landsat_Harmonic_Regression.js\<close> composes operations of an image-processing
  platform. An image is an ordered list of named bands; a band gives every pixel a value
  or no value (a masked pixel). Pixel values are real numbers: the platform's floating
  point numbers are idealised, and the casts \<^verbatim>\<open>float()\<close> are the identity. The type
  variable \<open>'p\<close> is the type of pixel locations.
\<close>

subsection \<open>Results and errors\<close>

datatype error =
    NoSuchBand string
  | BandCountMismatch
  | MissingTimeStart
  | Inhomogeneous

definition andThen :: "error + 'a \<Rightarrow> ('a \<Rightarrow> error + 'b) \<Rightarrow> error + 'b" where
  "andThen m f = (case m of Inl e \<Rightarrow> Inl e | Inr x \<Rightarrow> f x)"

fun mapE :: "('a \<Rightarrow> error + 'b) \<Rightarrow> 'a list \<Rightarrow> error + 'b list" where
  "mapE f [] = Inr []"
| "mapE f (x # xs) = andThen (f x) (\<lambda>y. andThen (mapE f xs) (\<lambda>ys. Inr (y # ys)))"

subsection \<open>Images\<close>

type_synonym 'p band = "'p \<Rightarrow> real option"

record 'p image =
  bands :: "(string \<times> 'p band) list"
  time_start :: "int option"
  valid :: "int option"
  index :: string

definition bandNames :: "'p image \<Rightarrow> string list" where
  "bandNames img = map fst (bands img)"

text \<open>The value of every band of an image at one pixel, in band order.\<close>

definition valuesAt :: "'p \<Rightarrow> 'p image \<Rightarrow> real option list" where
  "valuesAt p img = map (\<lambda>b. snd b p) (bands img)"

text \<open>\<^verbatim>\<open>ee.Image(v)\<close>: one band named \<^verbatim>\<open>constant\<close>, defined at every pixel.\<close>

definition constantImage :: "real \<Rightarrow> 'p image" where
  "constantImage v =
     \<lparr>bands = [(''constant'', \<lambda>p. Some v)], time_start = None, valid = None, index = []\<rparr>"

text \<open>Decimal numerals, as the platform prints an integer into a band name.\<close>

fun string_of_nat :: "nat \<Rightarrow> string" where
  "string_of_nat n =
     (if n < 10 then [''0123456789'' ! n]
      else string_of_nat (n div 10) @ [''0123456789'' ! (n mod 10)])"

declare string_of_nat.simps [simp del]

text \<open>\<^verbatim>\<open>ee.Image.constant(list)\<close>: bands \<^verbatim>\<open>constant_0\<close>, \<^verbatim>\<open>constant_1\<close>, ...\<close>

definition constantList :: "real list \<Rightarrow> 'p image" where
  "constantList vs =
     \<lparr>bands = map (\<lambda>i. (''constant_'' @ string_of_nat i, \<lambda>p. Some (vs ! i))) [0..<length vs],
      time_start = None, valid = None, index = []\<rparr>"

subsection \<open>Band selection, renaming and stacking\<close>

text \<open>
  \<^verbatim>\<open>select\<close> takes band names that are patterns. The selections of the script use
  letters, digits, the underscore and the metacharacter \<^verbatim>\<open>.\<close> (any one character), and a
  pattern has to match a whole band name. A pattern that matches no band is an error.
\<close>

fun matchesPattern :: "string \<Rightarrow> string \<Rightarrow> bool" where
  "matchesPattern [] [] = True"
| "matchesPattern (c # cs) (d # ds) = ((c = CHR ''.'' \<or> c = d) \<and> matchesPattern cs ds)"
| "matchesPattern _ _ = False"

definition selectBands ::
  "(string \<times> 'p band) list \<Rightarrow> string \<Rightarrow> error + (string \<times> 'p band) list" where
  "selectBands bs pat =
     (case filter (\<lambda>b. matchesPattern pat (fst b)) bs of
        [] \<Rightarrow> Inl (NoSuchBand pat)
      | found \<Rightarrow> Inr found)"

definition select :: "string list \<Rightarrow> 'p image \<Rightarrow> error + 'p image" where
  "select pats img =
     andThen (mapE (selectBands (bands img)) pats) (\<lambda>found. Inr (img\<lparr>bands := concat found\<rparr>))"

definition rename :: "string list \<Rightarrow> 'p image \<Rightarrow> error + 'p image" where
  "rename names img =
     (if length names = length (bands img)
      then Inr (img\<lparr>bands := zip names (map snd (bands img))\<rparr>)
      else Inl BandCountMismatch)"

text \<open>
  \<^verbatim>\<open>addBands\<close> without overwriting appends the bands of the second image and keeps the
  properties of the first. A band whose name is already taken is renamed by the
  platform with a numeric suffix (\<^verbatim>\<open>constant\<close>, \<^verbatim>\<open>constant_1\<close>, \<^verbatim>\<open>constant_2\<close>, ...).
\<close>

definition freshName :: "string list \<Rightarrow> string \<Rightarrow> string" where
  "freshName used n =
     (if n \<in> set used
      then (case find (\<lambda>c. c \<notin> set used)
                   (map (\<lambda>j. n @ ''_'' @ string_of_nat j) [1..<length used + 2]) of
              Some c \<Rightarrow> c
            | None \<Rightarrow> n)
      else n)"

fun appendBands ::
  "(string \<times> 'p band) list \<Rightarrow> (string \<times> 'p band) list \<Rightarrow> (string \<times> 'p band) list" where
  "appendBands bs [] = bs"
| "appendBands bs (b # rest) =
     appendBands (bs @ [(freshName (map fst bs) (fst b), snd b)]) rest"

definition addBands :: "'p image \<Rightarrow> 'p image \<Rightarrow> 'p image" where
  "addBands dst src = dst\<lparr>bands := appendBands (bands dst) (bands src)\<rparr>"

subsection \<open>Pixel-wise arithmetic\<close>

text \<open>A result pixel is masked as soon as one operand is masked there.\<close>

definition lift1 :: "(real \<Rightarrow> real) \<Rightarrow> 'p band \<Rightarrow> 'p band" where
  "lift1 f b = (\<lambda>p. map_option f (b p))"

definition lift2 :: "(real \<Rightarrow> real \<Rightarrow> real) \<Rightarrow> 'p band \<Rightarrow> 'p band \<Rightarrow> 'p band" where
  "lift2 f a b = (\<lambda>p. case a p of None \<Rightarrow> None | Some x \<Rightarrow> map_option (f x) (b p))"

text \<open>
  An operation with a number as its argument (\<^verbatim>\<open>multiply(5)\<close>, \<^verbatim>\<open>cos()\<close>,
  \<^verbatim>\<open>unitScale(lo, hi)\<close>, \<^verbatim>\<open>toShort()\<close>) acts on every band and keeps the names.
\<close>

definition mapBands :: "(real \<Rightarrow> real) \<Rightarrow> 'p image \<Rightarrow> 'p image" where
  "mapBands f img = img\<lparr>bands := map (\<lambda>b. (fst b, lift1 f (snd b))) (bands img)\<rparr>"

text \<open>
  An operation between two images pairs the bands by position when the counts agree
  and names the result after the first image; an image of one band is used against
  every band of the other; any other pair of counts is an error.
\<close>

definition binop ::
  "(real \<Rightarrow> real \<Rightarrow> real) \<Rightarrow> 'p image \<Rightarrow> 'p image \<Rightarrow> error + 'p image" where
  "binop f a b =
     (if length (bands a) = length (bands b)
      then Inr (a\<lparr>bands := map2 (\<lambda>x y. (fst x, lift2 f (snd x) (snd y))) (bands a) (bands b)\<rparr>)
      else if length (bands b) = 1
      then Inr (a\<lparr>bands := map (\<lambda>x. (fst x, lift2 f (snd x) (snd (hd (bands b))))) (bands a)\<rparr>)
      else if length (bands a) = 1
      then Inr (a\<lparr>bands := map (\<lambda>y. (fst y, lift2 f (snd (hd (bands a))) (snd y))) (bands b)\<rparr>)
      else Inl BandCountMismatch)"

definition multiply :: "'p image \<Rightarrow> 'p image \<Rightarrow> error + 'p image" where
  "multiply = binop (\<lambda>x y. x * y)"

definition hypot :: "real \<Rightarrow> real \<Rightarrow> real" where
  "hypot x y = sqrt (x\<^sup>2 + y\<^sup>2)"

text \<open>
  Modelled from the spec: the platform's two-argument arctangent is not part of the
  repository. The spec reads \<^verbatim>\<open>sin.atan2(cos)\<close> as \<open>atan2(sin, cos)\<close> with
  \<open>atan2(0, positive) = 0\<close> and values in \<open>[-\<pi>, \<pi>]\<close>: the angle of the point whose
  ordinate is the first argument and whose abscissa is the second.
\<close>

definition atan2 :: "real \<Rightarrow> real \<Rightarrow> real" where
  "atan2 y x =
     (if 0 < x then arctan (y / x)
      else if x < 0 then (if 0 \<le> y then arctan (y / x) + pi else arctan (y / x) - pi)
      else if 0 < y then pi / 2
      else if y < 0 then - (pi / 2)
      else 0)"

text \<open>
  Modelled from the spec: \<^verbatim>\<open>unitScale(low, high)\<close> rescales linearly, taking \<open>low\<close> to 0
  and \<open>high\<close> to 1.
\<close>

definition unitScale :: "real \<Rightarrow> real \<Rightarrow> real \<Rightarrow> real" where
  "unitScale low high v = (v - low) / (high - low)"

text \<open>
  Modelled from the spec: the cast \<^verbatim>\<open>toShort()\<close> to a 16-bit signed integer is not part
  of the repository. The spec describes the stored value as the rounded number clamped
  to the 16-bit signed range.
\<close>

definition toShort :: "real \<Rightarrow> int" where
  "toShort x = max (- 32768) (min 32767 (round x))"

subsection \<open>Reductions\<close>

text \<open>
  A reducer sees the unmasked inputs of a pixel only, and a pixel with no unmasked
  input is masked in the result. Reducing an image combines its bands; reducing a
  collection combines, band by band, the images, which must all have the same bands.
  A collection without images reduces to an image without bands.
\<close>

definition emptyImage :: "'p image" where
  "emptyImage = \<lparr>bands = [], time_start = None, valid = None, index = []\<rparr>"

definition unmasked :: "real option list \<Rightarrow> real list" where
  "unmasked vs = List.map_filter (\<lambda>v. v) vs"

definition sumReducer :: "real list \<Rightarrow> real option" where
  "sumReducer vs = (if vs = [] then None else Some (sum_list vs))"

definition meanReducer :: "real list \<Rightarrow> real option" where
  "meanReducer vs = (if vs = [] then None else Some (sum_list vs / real (length vs)))"

definition medianReducer :: "real list \<Rightarrow> real option" where
  "medianReducer vs =
     (if vs = [] then None
      else let s = sort vs; n = length s
           in Some (if odd n then s ! (n div 2) else (s ! (n div 2 - 1) + s ! (n div 2)) / 2))"

definition reduceBands :: "(real list \<Rightarrow> real option) \<Rightarrow> string \<Rightarrow> 'p image \<Rightarrow> 'p image" where
  "reduceBands r name img = img\<lparr>bands := [(name, \<lambda>p. r (unmasked (valuesAt p img)))]\<rparr>"

definition reduceImages ::
  "(real list \<Rightarrow> real option) \<Rightarrow> string \<Rightarrow> 'p image list \<Rightarrow> error + 'p image" where
  "reduceImages r suffix coll =
     (case coll of
        [] \<Rightarrow> Inr emptyImage
      | first # _ \<Rightarrow>
          if list_all (\<lambda>img. bandNames img = bandNames first) coll
          then Inr (emptyImage
                 \<lparr>bands := map (\<lambda>j. (bandNames first ! j @ suffix,
                                      \<lambda>p. r (unmasked (map (\<lambda>img. snd (bands img ! j) p) coll))))
                               [0..<length (bands first)]\<rparr>)
          else Inl Inhomogeneous)"

subsection \<open>The regression reducer\<close>

text \<open>
  Modelled from the spec: \<^verbatim>\<open>ee.Reducer.linearRegression\<close> is not part of the
  repository. By the spec the fit of a pixel is undefined when the pixel has fewer
  valid observations than design columns or when its design matrix is rank-deficient
  (some non-zero combination of the columns vanishes on every row). Otherwise the
  coefficients are those of the platform's least-squares solver, a parameter \<open>ols\<close>
  that gives the coefficient of every column or no result.
\<close>

type_synonym solver = "(real list \<times> real) list \<Rightarrow> (nat \<Rightarrow> real) option"

definition rankDeficient :: "nat \<Rightarrow> real list list \<Rightarrow> bool" where
  "rankDeficient numX rows =
     (\<exists>c. length c = numX \<and> (\<exists>j<numX. c ! j \<noteq> 0) \<and>
          (\<forall>r\<in>set rows. (\<Sum>j<numX. r ! j * c ! j) = 0))"

definition linearRegression :: "solver \<Rightarrow> nat \<Rightarrow> (real list \<times> real) list \<Rightarrow> real list option" where
  "linearRegression ols numX obs =
     (if length obs < numX \<or> rankDeficient numX (map fst obs) then None
      else map_option (\<lambda>c. map c [0..<numX]) (ols obs))"

text \<open>
  An image contributes an observation at a pixel when all its bands are unmasked
  there: the first \<open>numX\<close> values are the design row, the next one the dependent value.
\<close>

definition observationsAt :: "nat \<Rightarrow> 'p \<Rightarrow> 'p image list \<Rightarrow> (real list \<times> real) list" where
  "observationsAt numX p coll =
     map (\<lambda>t. (take numX t, t ! numX)) (List.map_filter (\<lambda>img. those (valuesAt p img)) coll)"

definition reduceLinearRegression ::
  "solver \<Rightarrow> nat \<Rightarrow> 'p image list \<Rightarrow> error + ('p \<Rightarrow> real list option)" where
  "reduceLinearRegression ols numX coll =
     (if list_all (\<lambda>img. length (bands img) = numX + 1) coll
      then Inr (\<lambda>p. linearRegression ols numX (observationsAt numX p coll))
      else Inl BandCountMismatch)"

text \<open>
  \<^verbatim>\<open>arrayProject([0]).arrayFlatten([names])\<close> turns the coefficient array of every pixel
  into one band per name. The arrays of the regression have one entry per name.
\<close>

definition arrayFlatten :: "string list \<Rightarrow> ('p \<Rightarrow> real list option) \<Rightarrow> 'p image" where
  "arrayFlatten names arr =
     emptyImage
     \<lparr>bands := map (\<lambda>j. (names ! j,
                          \<lambda>p. case arr p of
                                 None \<Rightarrow> None
                               | Some cs \<Rightarrow> if length cs = length names then Some (cs ! j) else None))
                   [0..<length names]\<rparr>"

subsection \<open>Dates\<close>

text \<open>
  A date is a number of milliseconds since 1970-01-01T00:00 UTC, which is also the
  unit of \<^verbatim>\<open>system:time_start\<close>. \<^verbatim>\<open>ee.Date.fromYMD\<close> is the midnight that starts a day of
  the Gregorian calendar. \<^verbatim>\<open>difference(start, 'year')\<close> divides the elapsed time by the
  platform's length of a year, a parameter.
\<close>

definition daysFromCivil :: "int \<Rightarrow> int \<Rightarrow> int \<Rightarrow> int" where
  "daysFromCivil y m d =
     (let y' = (if m \<le> 2 then y - 1 else y);
          era = y' div 400;
          yoe = y' - era * 400;
          doy = (153 * (if 2 < m then m - 3 else m + 9) + 2) div 5 + d - 1;
          doe = yoe * 365 + yoe div 4 - yoe div 100 + doy
      in era * 146097 + doe - 719468)"

definition fromYMD :: "int \<Rightarrow> int \<Rightarrow> int \<Rightarrow> int" where
  "fromYMD y m d = daysFromCivil y m d * 86400000"

definition difference :: "real \<Rightarrow> int \<Rightarrow> int \<Rightarrow> real" where
  "difference unitMillis d start = real_of_int (d - start) / unitMillis"

definition date :: "'p image \<Rightarrow> error + int" where
  "date img = (case time_start img of None \<Rightarrow> Inl MissingTimeStart | Some t \<Rightarrow> Inr t)"

definition filterDate :: "int \<Rightarrow> int \<Rightarrow> 'p image list \<Rightarrow> 'p image list" where
  "filterDate start stop coll =
     filter (\<lambda>img. case time_start img of None \<Rightarrow> False | Some t \<Rightarrow> start \<le> t \<and> t < stop) coll"

section \<open>The script\<close>

text \<open>
  Every global of the script is a function of the globals it reads. The collection
  \<open>ndvi\<close> is the one that leaves \<^verbatim>\<open>.map(addNDVI)\<close>; the length of a year in
  milliseconds, the least-squares solver and the export geometry are parameters.
\<close>

definition dependentName :: string where
  "dependentName = ''NDVI''"

definition harmonics :: nat where
  "harmonics = 3"

definition harmonicFrequencies :: "nat list" where
  "harmonicFrequencies = [1..<Suc harmonics]"

definition getNames :: "string \<Rightarrow> nat list \<Rightarrow> string list" where
  "getNames base list = map (\<lambda>i. base @ string_of_nat i) list"

definition cosNames :: "string list" where
  "cosNames = getNames ''cos_'' harmonicFrequencies"

definition sinNames :: "string list" where
  "sinNames = getNames ''sin_'' harmonicFrequencies"

definition ampNames :: "string list" where
  "ampNames = getNames ''amplitude_'' harmonicFrequencies"

definition phaseNames :: "string list" where
  "phaseNames = getNames ''phase_'' harmonicFrequencies"

definition independents :: "string list" where
  "independents = [''constant'', ''t''] @ cosNames @ sinNames"

definition addConstant :: "'p image \<Rightarrow> 'p image" where
  "addConstant img = addBands img (constantImage 1)"

definition addTime :: "real \<Rightarrow> 'p image \<Rightarrow> error + 'p image" where
  "addTime yearMillis img =
     andThen (date img) (\<lambda>d.
       let years = difference yearMillis d (fromYMD 1970 1 1);
           timeRadians = constantImage (years * (2 * pi))
       in andThen (rename [''t''] timeRadians) (\<lambda>t. Inr (addBands img t)))"

definition addHarmonics :: "nat list \<Rightarrow> 'p image \<Rightarrow> error + 'p image" where
  "addHarmonics freqs img =
     (let frequencies = constantList (map real freqs)
      in andThen (select [''t''] img) (\<lambda>time.
         andThen (andThen (multiply time frequencies) (\<lambda>m. rename cosNames (mapBands cos m)))
           (\<lambda>cosines.
         andThen (andThen (multiply time frequencies) (\<lambda>m. rename sinNames (mapBands sin m)))
           (\<lambda>sines.
         Inr (addBands (addBands img cosines) sines)))))"

definition harmonicLandsat :: "real \<Rightarrow> 'p image list \<Rightarrow> error + 'p image list" where
  "harmonicLandsat yearMillis ndvi =
     andThen (mapE (\<lambda>img. Inr (addConstant img)) ndvi) (\<lambda>c.
     andThen (mapE (addTime yearMillis) c) (\<lambda>t.
     mapE (addHarmonics harmonicFrequencies) t))"

definition harmonicTrend :: "solver \<Rightarrow> 'p image list \<Rightarrow> error + ('p \<Rightarrow> real list option)" where
  "harmonicTrend ols hl =
     andThen (mapE (select (independents @ [dependentName])) hl)
       (reduceLinearRegression ols (length independents))"

definition harmonicTrendCoefficients :: "('p \<Rightarrow> real list option) \<Rightarrow> 'p image" where
  "harmonicTrendCoefficients trend = arrayFlatten independents trend"

text \<open>
  The function given to \<^verbatim>\<open>map\<close> runs when \<^verbatim>\<open>fittedHarmonic\<close> is declared, so it reads the
  coefficient img of line 137, before the amplitude, phase and mean bands are added.
\<close>

definition fittedHarmonic :: "'p image \<Rightarrow> 'p image list \<Rightarrow> error + 'p image list" where
  "fittedHarmonic coefficients hl =
     mapE (\<lambda>img.
       andThen (select independents img) (\<lambda>x.
       andThen (multiply x coefficients) (\<lambda>prod.
       andThen (rename [''fitted''] (reduceBands sumReducer ''sum'' prod)) (\<lambda>fitted.
       Inr (addBands img fitted))))) hl"

text \<open>The three later bindings of \<^verbatim>\<open>harmonicTrendCoefficients\<close> (lines 153, 159 and 164).\<close>

definition harmonicTrendCoefficients_amplitude :: "'p image \<Rightarrow> error + 'p image" where
  "harmonicTrendCoefficients_amplitude coefficients =
     andThen (select [''sin_.''] coefficients) (\<lambda>s.
     andThen (select [''cos_.''] coefficients) (\<lambda>c.
     andThen (binop hypot s c) (\<lambda>h.
     andThen (rename ampNames (mapBands (\<lambda>v. v * 5) h)) (\<lambda>amplitude.
     Inr (addBands coefficients amplitude)))))"

definition harmonicTrendCoefficients_phase :: "'p image \<Rightarrow> error + 'p image" where
  "harmonicTrendCoefficients_phase coefficients =
     andThen (select [''sin_.''] coefficients) (\<lambda>s.
     andThen (select [''cos_.''] coefficients) (\<lambda>c.
     andThen (binop atan2 s c) (\<lambda>a.
     andThen (rename phaseNames (mapBands (unitScale (- pi) pi) a)) (\<lambda>phase.
     Inr (addBands coefficients phase)))))"

definition harmonicTrendCoefficients_mean ::
  "'p image list \<Rightarrow> 'p image \<Rightarrow> error + 'p image" where
  "harmonicTrendCoefficients_mean hl coefficients =
     andThen (mapE (select [''NDVI'']) hl) (\<lambda>n.
     andThen (reduceImages meanReducer ''_mean'' n) (\<lambda>m.
     andThen (rename [''NDVI_mean''] m) (\<lambda>mean.
     Inr (addBands coefficients mean))))"

text \<open>The coefficient img that is exported: all three additions in turn.\<close>

definition exportedCoefficients ::
  "'p image list \<Rightarrow> ('p \<Rightarrow> real list option) \<Rightarrow> error + 'p image" where
  "exportedCoefficients hl trend =
     andThen (harmonicTrendCoefficients_amplitude (harmonicTrendCoefficients trend)) (\<lambda>a.
     andThen (harmonicTrendCoefficients_phase a) (\<lambda>b.
     harmonicTrendCoefficients_mean hl b))"

definition clip :: "('p \<Rightarrow> bool) \<Rightarrow> 'p image \<Rightarrow> 'p image" where
  "clip geometry img =
     img\<lparr>bands := map (\<lambda>b. (fst b, \<lambda>p. if geometry p then snd b p else None)) (bands img)\<rparr>"

definition outputImage :: "('p \<Rightarrow> bool) \<Rightarrow> 'p image \<Rightarrow> 'p image" where
  "outputImage geometry coefficients =
     clip geometry
       (mapBands (\<lambda>v. real_of_int (toShort v)) (mapBands (\<lambda>v. v * 10000) coefficients))"

subsection \<open>Yearly composites\<close>

definition stepList :: "int list" where
  "stepList = [2013..2023]"

definition composite :: "'p image list \<Rightarrow> int \<Rightarrow> error + 'p image" where
  "composite fitted year =
     (let startDate = fromYMD year 6 1;
          endDate = fromYMD year 9 30
      in andThen (reduceImages medianReducer [] (filterDate startDate endDate fitted)) (\<lambda>m.
           let composite_i = m\<lparr>time_start := Some startDate\<rparr>
           in Inr (if bandNames composite_i = [] then composite_i\<lparr>valid := Some 0\<rparr>
                   else composite_i\<lparr>valid := Some 1\<rparr>)))"

definition filterCollection :: "'p image list \<Rightarrow> error + 'p image list" where
  "filterCollection fitted = mapE (composite fitted) stepList"

text \<open>
  \<^verbatim>\<open>ee.ImageCollection(list)\<close> numbers the images of the list: the \<^verbatim>\<open>system:index\<close> of an
  img is its position. A filter keeps the index of the images it keeps, and
  \<^verbatim>\<open>toBands\<close> prefixes every band name with the index of its img.
\<close>

definition imageCollection :: "'p image list \<Rightarrow> 'p image list" where
  "imageCollection images =
     map (\<lambda>i. (images ! i)\<lparr>index := string_of_nat i\<rparr>) [0..<length images]"

definition filterMetadata_valid :: "int \<Rightarrow> 'p image list \<Rightarrow> 'p image list" where
  "filterMetadata_valid v coll = filter (\<lambda>img. valid img = Some v) coll"

definition yearlyComposites :: "'p image list \<Rightarrow> 'p image list" where
  "yearlyComposites composites = filterMetadata_valid 1 (imageCollection composites)"

definition yearlyNDVI :: "'p image list \<Rightarrow> error + 'p image list" where
  "yearlyNDVI yearly = mapE (select [''fitted'']) yearly"

definition toBands :: "'p image list \<Rightarrow> 'p image" where
  "toBands coll =
     emptyImage
     \<lparr>bands := concat (map (\<lambda>img. map (\<lambda>b. (index img @ ''_'' @ fst b, snd b)) (bands img)) coll)\<rparr>"

definition yearLabels :: "string list" where
  "yearLabels = [''2013'', ''2014'', ''2015'', ''2016'', ''2017'', ''2018'', ''2019'', ''2020'',
                 ''2021'', ''2022'', ''2023'']"

definition positionalNames :: "string list" where
  "positionalNames = [''0_fitted'', ''1_fitted'', ''2_fitted'', ''3_fitted'', ''4_fitted'',
                      ''5_fitted'', ''6_fitted'', ''7_fitted'', ''8_fitted'', ''9_fitted'',
                      ''10_fitted'']"

definition selectedYears :: "'p image list \<Rightarrow> error + 'p image" where
  "selectedYears ndviColl =
     andThen (select positionalNames (toBands ndviColl)) (rename yearLabels)"

definition outImage :: "'p image list \<Rightarrow> error + 'p image" where
  "outImage ndviColl =
     andThen (selectedYears ndviColl) (\<lambda>s.
       Inr (mapBands (\<lambda>v. real_of_int (toShort v)) (mapBands (\<lambda>v. v * 10000) s)))"

section \<open>Notions used to state the properties\<close>

text \<open>
  \<open>bandAt\<close> reads a band by its name at a pixel: no value when the image has no
  such band or when the pixel is masked. An image that enters \<^verbatim>\<open>addConstant\<close> is
  well formed when it has a time stamp, exactly one band \<^verbatim>\<open>NDVI\<close>, and no band named
  like a band the script adds (the platform would rename the added band). A collection
  is homogeneous when all its images have the same band names.
\<close>

definition bandAt :: "'p image \<Rightarrow> string \<Rightarrow> 'p \<Rightarrow> real option" where
  "bandAt img n p = (case map_of (bands img) n of None \<Rightarrow> None | Some b \<Rightarrow> b p)"

definition inputImage :: "'p image \<Rightarrow> bool" where
  "inputImage img \<longleftrightarrow>
     time_start img \<noteq> None \<and>
     length (filter (\<lambda>n. n = dependentName) (bandNames img)) = 1 \<and>
     list_all (\<lambda>n. n \<notin> set (''fitted'' # independents)) (bandNames img)"

definition homogeneous :: "'p image list \<Rightarrow> bool" where
  "homogeneous coll \<longleftrightarrow> list_all (\<lambda>img. bandNames img = bandNames (hd coll)) coll"

subsection \<open>The time series of a pixel\<close>

text \<open>
  The design row of a time \<open>t\<close> in radians, in the column order of the script; the
  observations of a pixel that are valid (their NDVI is unmasked there) and the design
  matrix they make; and the time series of a pixel, the time stamp and the NDVI value
  of every image.
\<close>

definition timeRadians :: "real \<Rightarrow> int \<Rightarrow> real" where
  "timeRadians yl ms = real_of_int ms / yl * (2 * pi)"

definition designRow :: "real \<Rightarrow> real list" where
  "designRow t = [1, t, cos t, cos (t * 2), cos (t * 3), sin t, sin (t * 2), sin (t * 3)]"

definition validObservations :: "'p \<Rightarrow> 'p image list \<Rightarrow> 'p image list" where
  "validObservations p ndvi = filter (\<lambda>img. bandAt img ''NDVI'' p \<noteq> None) ndvi"

definition designMatrix :: "real \<Rightarrow> 'p \<Rightarrow> 'p image list \<Rightarrow> real list list" where
  "designMatrix yl p ndvi =
     map (\<lambda>img. designRow (timeRadians yl (the (time_start img)))) (validObservations p ndvi)"

definition pixelSeries :: "'p \<Rightarrow> 'p image list \<Rightarrow> (int option \<times> real option) list" where
  "pixelSeries p ndvi = map (\<lambda>img. (time_start img, bandAt img ''NDVI'' p)) ndvi"

definition seriesObservations ::
  "real \<Rightarrow> (int option \<times> real option) list \<Rightarrow> (real list \<times> real) list" where
  "seriesObservations yl series =
     List.map_filter (\<lambda>s. map_option (\<lambda>y. (designRow (timeRadians yl (the (fst s))), y)) (snd s))
       series"

subsection \<open>The yearly windows\<close>

text \<open>
  The observations of the window of a year, the pixel-wise median of their fitted
  values, and the positions in \<open>stepList\<close> of the years whose window is not empty.
\<close>

definition yearWindow :: "'p image list \<Rightarrow> int \<Rightarrow> 'p image list" where
  "yearWindow fitted year = filterDate (fromYMD year 6 1) (fromYMD year 9 30) fitted"

definition medianFitted :: "'p image list \<Rightarrow> 'p band" where
  "medianFitted w = (\<lambda>p. medianReducer (unmasked (map (\<lambda>f. bandAt f ''fitted'' p) w)))"

definition validYears :: "'p image list \<Rightarrow> nat list" where
  "validYears fitted =
     filter (\<lambda>i. yearWindow fitted (stepList ! i) \<noteq> []) [0..<length stepList]"

subsection \<open>Closed forms of the intermediate images\<close>

text \<open>
  What the steps of the script compute on a well-formed input, written out band by
  band; the facts below prove that the script computes them.
\<close>

definition regressorBands :: "real \<Rightarrow> (string \<times> 'p band) list" where
  "regressorBands t =
     [(''constant'', \<lambda>p. Some 1), (''t'', \<lambda>p. Some t),
      (''cos_1'', \<lambda>p. Some (cos t)), (''cos_2'', \<lambda>p. Some (cos (t * 2))),
      (''cos_3'', \<lambda>p. Some (cos (t * 3))),
      (''sin_1'', \<lambda>p. Some (sin t)), (''sin_2'', \<lambda>p. Some (sin (t * 2))),
      (''sin_3'', \<lambda>p. Some (sin (t * 3)))]"

definition features :: "real \<Rightarrow> 'p image \<Rightarrow> 'p image" where
  "features yl img =
     img\<lparr>bands := bands img @ regressorBands (timeRadians yl (the (time_start img)))\<rparr>"

definition regressionInput :: "real \<Rightarrow> 'p image \<Rightarrow> 'p image" where
  "regressionInput yl img =
     img\<lparr>bands := regressorBands (timeRadians yl (the (time_start img))) @
                    [(''NDVI'', \<lambda>p. bandAt img ''NDVI'' p)]\<rparr>"

definition coefBand :: "('p \<Rightarrow> real list option) \<Rightarrow> nat \<Rightarrow> 'p band" where
  "coefBand trend j =
     (\<lambda>p. case trend p of
            None \<Rightarrow> None
          | Some cs \<Rightarrow> if length cs = length independents then Some (cs ! j) else None)"

definition coefficientBands :: "('p \<Rightarrow> real list option) \<Rightarrow> (string \<times> 'p band) list" where
  "coefficientBands trend =
     [(''constant'', coefBand trend 0), (''t'', coefBand trend 1),
      (''cos_1'', coefBand trend 2), (''cos_2'', coefBand trend 3), (''cos_3'', coefBand trend 4),
      (''sin_1'', coefBand trend 5), (''sin_2'', coefBand trend 6), (''sin_3'', coefBand trend 7)]"

definition amplitudeBands :: "('p \<Rightarrow> real list option) \<Rightarrow> (string \<times> 'p band) list" where
  "amplitudeBands trend =
     [(''amplitude_1'', lift1 (\<lambda>v. v * 5) (lift2 hypot (coefBand trend 5) (coefBand trend 2))),
      (''amplitude_2'', lift1 (\<lambda>v. v * 5) (lift2 hypot (coefBand trend 6) (coefBand trend 3))),
      (''amplitude_3'', lift1 (\<lambda>v. v * 5) (lift2 hypot (coefBand trend 7) (coefBand trend 4)))]"

definition phaseBands :: "('p \<Rightarrow> real list option) \<Rightarrow> (string \<times> 'p band) list" where
  "phaseBands trend =
     [(''phase_1'', lift1 (unitScale (- pi) pi) (lift2 atan2 (coefBand trend 5) (coefBand trend 2))),
      (''phase_2'', lift1 (unitScale (- pi) pi) (lift2 atan2 (coefBand trend 6) (coefBand trend 3))),
      (''phase_3'', lift1 (unitScale (- pi) pi) (lift2 atan2 (coefBand trend 7) (coefBand trend 4)))]"

definition derivedBand ::
  "(real \<Rightarrow> real \<Rightarrow> real) \<Rightarrow> (real \<Rightarrow> real) \<Rightarrow> 'p band \<Rightarrow> 'p band \<Rightarrow> 'p band" where
  "derivedBand f g s c = lift1 g (lift2 f s c)"

definition meanBand :: "'p image list \<Rightarrow> 'p band" where
  "meanBand ndvi = (\<lambda>p. meanReducer (unmasked (map (\<lambda>img. bandAt img ''NDVI'' p) ndvi)))"

definition fittedBand :: "real \<Rightarrow> ('p \<Rightarrow> real list option) \<Rightarrow> 'p band" where
  "fittedBand t trend =
     (\<lambda>p. sumReducer (unmasked
        [lift2 (\<lambda>x y. x * y) (\<lambda>p. Some 1) (coefBand trend 0) p,
         lift2 (\<lambda>x y. x * y) (\<lambda>p. Some t) (coefBand trend 1) p,
         lift2 (\<lambda>x y. x * y) (\<lambda>p. Some (cos t)) (coefBand trend 2) p,
         lift2 (\<lambda>x y. x * y) (\<lambda>p. Some (cos (t * 2))) (coefBand trend 3) p,
         lift2 (\<lambda>x y. x * y) (\<lambda>p. Some (cos (t * 3))) (coefBand trend 4) p,
         lift2 (\<lambda>x y. x * y) (\<lambda>p. Some (sin t)) (coefBand trend 5) p,
         lift2 (\<lambda>x y. x * y) (\<lambda>p. Some (sin (t * 2))) (coefBand trend 6) p,
         lift2 (\<lambda>x y. x * y) (\<lambda>p. Some (sin (t * 3))) (coefBand trend 7) p]))"

definition fittedImage :: "real \<Rightarrow> ('p \<Rightarrow> real list option) \<Rightarrow> 'p image \<Rightarrow> 'p image" where
  "fittedImage yl trend img =
     img\<lparr>bands := bands img @ regressorBands (timeRadians yl (the (time_start img))) @
        [(''fitted'', fittedBand (timeRadians yl (the (time_start img))) trend)]\<rparr>"

definition fittedCollection :: "'p image list \<Rightarrow> bool" where
  "fittedCollection fitted \<longleftrightarrow>
     (\<exists>ns. ''fitted'' \<notin> set ns \<and> (\<forall>f\<in>set fitted. bandNames f = ns @ [''fitted'']))"

definition yearComposite :: "'p image list \<Rightarrow> int \<Rightarrow> 'p image" where
  "yearComposite fitted year =
     (if yearWindow fitted year = []
      then emptyImage\<lparr>time_start := Some (fromYMD year 6 1), valid := Some 0\<rparr>
      else emptyImage\<lparr>bands := [(''fitted'', medianFitted (yearWindow fitted year))],
                      time_start := Some (fromYMD year 6 1), valid := Some 1\<rparr>)"

definition compositeOf :: "'p image list \<Rightarrow> int \<Rightarrow> 'p image \<Rightarrow> bool" where
  "compositeOf fitted year c \<longleftrightarrow>
     (valid c = Some 1) = (yearWindow fitted year \<noteq> []) \<and>
     (yearWindow fitted year \<noteq> [] \<longrightarrow>
        (\<forall>i. select [''fitted''] (c\<lparr>index := i\<rparr>) =
               Inr ((yearComposite fitted year)\<lparr>index := i\<rparr>)))"

subsection \<open>Sample inputs\<close>

text \<open>
  Concrete inputs for the instances of the theorems: an observation of one pixel, a
  regression result with given first-harmonic coefficients, an observation of two
  pixels, a solver, and a series with one observation on July 15 of each given year.
\<close>

definition sampleObservation :: "int \<Rightarrow> real \<Rightarrow> unit image" where
  "sampleObservation ms v =
     \<lparr>bands = [(''SR_B4'', \<lambda>p. Some (1 / 10)), (''SR_B5'', \<lambda>p. Some (3 / 10)),
               (''NDVI'', \<lambda>p. Some v)],
      time_start = Some ms, valid = None, index = ''LC08''\<rparr>"

definition sampleTrend :: "real \<Rightarrow> real \<Rightarrow> unit \<Rightarrow> real list option" where
  "sampleTrend cos1 sin1 = (\<lambda>p. Some [1 / 2, 0, cos1, 0, 0, sin1, 0, 0])"

definition twoPixelObservation :: "int \<Rightarrow> real option \<Rightarrow> real option \<Rightarrow> bool image" where
  "twoPixelObservation ms a b =
     \<lparr>bands = [(''NDVI'', \<lambda>p. if p then a else b)],
      time_start = Some ms, valid = None, index = ''LC08''\<rparr>"

definition zeroSolver :: solver where
  "zeroSolver obs = Some (\<lambda>j. 0)"

definition yearlySeries :: "int list \<Rightarrow> unit image list" where
  "yearlySeries years = map (\<lambda>year. sampleObservation (fromYMD year 7 15) (1 / 2)) years"

definition gapYears :: "int list" where
  "gapYears = filter (\<lambda>year. year \<noteq> 2015) stepList"


section \<open>Facts about the script\<close>

subsection \<open>Results, names and patterns\<close>

lemma andThen_Inr [simp]: "andThen (Inr x) f = f x"
  by (simp add: andThen_def)

lemma andThen_Inl [simp]: "andThen (Inl e) f = Inl e"
  by (simp add: andThen_def)

lemma mapE_Inr: "(\<And>x. x \<in> set xs \<Longrightarrow> f x = Inr (g x)) \<Longrightarrow> mapE f xs = Inr (map g xs)"
  by (induction xs) simp_all

lemma string_of_nat_digits:
  "string_of_nat 0 = ''0''" "string_of_nat 1 = ''1''" "string_of_nat 2 = ''2''"
  "string_of_nat 3 = ''3''" "string_of_nat 4 = ''4''" "string_of_nat 5 = ''5''"
  "string_of_nat 6 = ''6''" "string_of_nat 7 = ''7''" "string_of_nat 8 = ''8''"
  "string_of_nat 9 = ''9''" "string_of_nat 10 = ''10''" "string_of_nat (Suc 0) = ''1''"
  by (simp_all add: string_of_nat.simps)

lemma harmonicFrequencies_eq: "harmonicFrequencies = [1, 2, 3]"
  by (simp add: harmonicFrequencies_def harmonics_def upt_rec)

lemma names_eq:
  "cosNames = [''cos_1'', ''cos_2'', ''cos_3'']"
  "sinNames = [''sin_1'', ''sin_2'', ''sin_3'']"
  "ampNames = [''amplitude_1'', ''amplitude_2'', ''amplitude_3'']"
  "phaseNames = [''phase_1'', ''phase_2'', ''phase_3'']"
  by (simp_all add: cosNames_def sinNames_def ampNames_def phaseNames_def getNames_def
      harmonicFrequencies_eq string_of_nat_digits)

lemma independents_eq:
  "independents = [''constant'', ''t'', ''cos_1'', ''cos_2'', ''cos_3'', ''sin_1'', ''sin_2'', ''sin_3'']"
  by (simp add: independents_def names_eq)

lemma matchesPattern_literal:
  "CHR ''.'' \<notin> set pat \<Longrightarrow> matchesPattern pat n = (pat = n)"
  by (induction pat n rule: matchesPattern.induct) auto

lemma freshName_unused: "n \<notin> set used \<Longrightarrow> freshName used n = n"
  by (simp add: freshName_def)

lemma upt8: "[0..<8] = [0, 1, 2, 3, 4, 5, 6, 7]"
  by (simp add: upt_rec)

subsection \<open>The feature builder on a well-formed image\<close>

lemma inputImage_fresh:
  assumes "inputImage img" and "n \<in> set (''fitted'' # independents)"
  shows "n \<notin> fst ` set (bands img)"
  using assms by (auto simp: inputImage_def bandNames_def list_all_iff)

lemma inputImage_no_match:
  assumes "inputImage img" and "n \<in> set (''fitted'' # independents)"
  shows "filter (\<lambda>b. matchesPattern n (fst b)) (bands img) = []"
proof -
  have "CHR ''.'' \<notin> set n"
    using assms(2) by (auto simp: independents_eq)
  then have "\<And>m. matchesPattern n m = (n = m)"
    by (rule matchesPattern_literal)
  moreover have "\<And>b. b \<in> set (bands img) \<Longrightarrow> n \<noteq> fst b"
    using inputImage_fresh [OF assms] by auto
  ultimately show ?thesis
    by (simp add: filter_empty_conv)
qed

lemma addConstant_input:
  assumes "inputImage img"
  shows "addConstant img = img\<lparr>bands := bands img @ [(''constant'', \<lambda>p. Some 1)]\<rparr>"
  using inputImage_fresh [OF assms, of "''constant''"]
  by (simp add: addConstant_def addBands_def constantImage_def freshName_unused independents_eq)

lemma addTime_input:
  assumes "inputImage img" and "time_start img = Some ms"
  shows "addTime yl (addConstant img) =
     Inr (img\<lparr>bands := bands img @ [(''constant'', \<lambda>p. Some 1),
            (''t'', \<lambda>p. Some (real_of_int ms / yl * (2 * pi)))]\<rparr>)"
  using inputImage_fresh [OF assms(1), of "''t''"] assms(2)
  by (simp add: addConstant_input [OF assms(1)] addTime_def date_def Let_def constantImage_def
      rename_def addBands_def freshName_unused independents_eq difference_def fromYMD_def
      daysFromCivil_def)

lemma addHarmonics_input:
  assumes "inputImage img"
  shows "addHarmonics harmonicFrequencies
           (img\<lparr>bands := bands img @ [(''constant'', \<lambda>p. Some 1), (''t'', \<lambda>p. Some t)]\<rparr>) =
         Inr (img\<lparr>bands := bands img @ regressorBands t\<rparr>)"
  using inputImage_fresh [OF assms, of "''cos_1''"] inputImage_fresh [OF assms, of "''cos_2''"]
    inputImage_fresh [OF assms, of "''cos_3''"] inputImage_fresh [OF assms, of "''sin_1''"]
    inputImage_fresh [OF assms, of "''sin_2''"] inputImage_fresh [OF assms, of "''sin_3''"]
    inputImage_no_match [OF assms, of "''t''"]
  by (simp add: addHarmonics_def Let_def select_def selectBands_def harmonicFrequencies_eq
      constantList_def multiply_def binop_def mapBands_def lift1_def lift2_def rename_def
      names_eq addBands_def freshName_unused independents_eq regressorBands_def upt_rec
      string_of_nat_digits)

lemma mapE_map_Inr:
  "(\<And>x. x \<in> set xs \<Longrightarrow> f (h x) = Inr (g x)) \<Longrightarrow> mapE f (map h xs) = Inr (map g xs)"
  by (induction xs) simp_all

lemma harmonicLandsat_input:
  assumes "list_all inputImage ndvi"
  shows "harmonicLandsat yl ndvi = Inr (map (features yl) ndvi)"
proof -
  let ?withTime = "\<lambda>img. img\<lparr>bands := bands img @ [(''constant'', \<lambda>p. Some 1),
      (''t'', \<lambda>p. Some (timeRadians yl (the (time_start img))))]\<rparr>"
  have ok: "\<And>img. img \<in> set ndvi \<Longrightarrow> inputImage img"
    using assms by (simp add: list_all_iff)
  have c: "mapE (\<lambda>img. Inr (addConstant img)) ndvi = Inr (map addConstant ndvi)"
    by (rule mapE_Inr) simp
  have t: "mapE (addTime yl) (map addConstant ndvi) = Inr (map ?withTime ndvi)"
  proof (rule mapE_map_Inr)
    fix img assume "img \<in> set ndvi"
    then have i: "inputImage img" by (rule ok)
    then obtain ms where ms: "time_start img = Some ms"
      by (auto simp: inputImage_def)
    show "addTime yl (addConstant img) = Inr (?withTime img)"
      by (simp add: addTime_input [OF i ms] ms timeRadians_def)
  qed
  have h: "mapE (addHarmonics harmonicFrequencies) (map ?withTime ndvi) =
      Inr (map (features yl) ndvi)"
  proof (rule mapE_map_Inr)
    fix img assume "img \<in> set ndvi"
    then have i: "inputImage img" by (rule ok)
    show "addHarmonics harmonicFrequencies (?withTime img) = Inr (features yl img)"
      by (simp add: addHarmonics_input [OF i] features_def)
  qed
  show ?thesis
    by (simp add: harmonicLandsat_def c t h)
qed

subsection \<open>Bands of mapped images and the encoding\<close>

lemma map_of_map_snd:
  "map_of (map (\<lambda>b. (fst b, h (snd b))) xs) k = map_option h (map_of xs k)"
  by (induction xs) auto

lemma bandAt_mapBands: "bandAt (mapBands f img) n p = map_option f (bandAt img n p)"
  by (simp add: bandAt_def mapBands_def map_of_map_snd) (simp add: lift1_def split: option.splits)

lemma bandAt_clip: "bandAt (clip g img) n p = (if g p then bandAt img n p else None)"
  using map_of_map_snd [where h = "\<lambda>v p. if g p then v p else None" and xs = "bands img" and k = n]
  by (simp add: bandAt_def clip_def split: option.splits)

lemma toShort_unclamped:
  "- 32768 \<le> round x \<Longrightarrow> round x \<le> 32767 \<Longrightarrow> toShort x = round x"
  by (simp add: toShort_def)

lemma round_scaled_error: "\<bar>real_of_int (round (v * 10000)) / 10000 - v\<bar> \<le> 1 / 20000"
proof -
  have "\<bar>real_of_int (round (v * 10000)) - v * 10000\<bar> \<le> 1 / 2"
    by (rule of_int_round_abs_le)
  then show ?thesis by (simp add: field_simps abs_le_iff)
qed

subsection \<open>The coefficient image\<close>

lemma harmonicTrendCoefficients_bands:
  "harmonicTrendCoefficients trend = emptyImage\<lparr>bands := coefficientBands trend\<rparr>"
  unfolding harmonicTrendCoefficients_def arrayFlatten_def coefBand_def coefficientBands_def
    independents_eq
  by (simp add: upt8 eval_nat_numeral cong: option.case_cong if_cong)

lemma amplitude_bands:
  "harmonicTrendCoefficients_amplitude (harmonicTrendCoefficients trend) =
     Inr (emptyImage\<lparr>bands := coefficientBands trend @ amplitudeBands trend\<rparr>)"
  by (simp add: harmonicTrendCoefficients_bands harmonicTrendCoefficients_amplitude_def
      coefficientBands_def amplitudeBands_def select_def selectBands_def binop_def mapBands_def
      rename_def names_eq addBands_def freshName_unused emptyImage_def)

lemma phase_bands:
  "harmonicTrendCoefficients_phase
     (emptyImage\<lparr>bands := coefficientBands trend @ amplitudeBands trend\<rparr>) =
     Inr (emptyImage\<lparr>bands := coefficientBands trend @ amplitudeBands trend @ phaseBands trend\<rparr>)"
  by (simp add: harmonicTrendCoefficients_phase_def
      coefficientBands_def amplitudeBands_def phaseBands_def select_def selectBands_def binop_def
      mapBands_def rename_def names_eq addBands_def freshName_unused emptyImage_def)

subsection \<open>Selections from the feature images\<close>

lemma unique_band:
  "length (filter (\<lambda>n. n = k) (map fst xs)) = 1 \<Longrightarrow>
   \<exists>v. filter (\<lambda>b. fst b = k) xs = [(k, v)] \<and> map_of xs k = Some v"
proof (induction xs)
  case Nil
  then show ?case by simp
next
  case (Cons x xs)
  show ?case
  proof (cases "fst x = k")
    case True
    with Cons.prems have "filter (\<lambda>b. fst b = k) xs = []"
      by (simp add: filter_map o_def)
    with True show ?thesis by (cases x) auto
  next
    case False
    with Cons.prems have "length (filter (\<lambda>n. n = k) (map fst xs)) = 1"
      by (simp add: filter_map o_def)
    from Cons.IH [OF this] False show ?thesis by (cases x) auto
  qed
qed

lemma inputImage_ndvi:
  assumes "inputImage img"
  shows "filter (\<lambda>b. matchesPattern dependentName (fst b)) (bands img) =
           [(dependentName, \<lambda>p. bandAt img dependentName p)]"
proof -
  have "CHR ''.'' \<notin> set dependentName"
    by (simp add: dependentName_def)
  then have f: "filter (\<lambda>b. matchesPattern dependentName (fst b)) (bands img) =
      filter (\<lambda>b. fst b = dependentName) (bands img)"
    by (intro filter_cong) (auto simp: matchesPattern_literal)
  from assms have "length (filter (\<lambda>n. n = dependentName) (map fst (bands img))) = 1"
    by (simp add: inputImage_def bandNames_def)
  from unique_band [OF this] obtain v where
    v: "filter (\<lambda>b. fst b = dependentName) (bands img) = [(dependentName, v)]"
      "map_of (bands img) dependentName = Some v"
    by blast
  have "(\<lambda>p. bandAt img dependentName p) = v"
    by (simp add: bandAt_def v(2))
  with f v(1) show ?thesis by simp
qed

lemma select_independents_features:
  assumes "inputImage img"
  shows "select independents (features yl img) =
     Inr (img\<lparr>bands := regressorBands (timeRadians yl (the (time_start img)))\<rparr>)"
  by (simp add: select_def selectBands_def features_def independents_eq
      inputImage_no_match [OF assms] regressorBands_def)

lemma select_dependent_features:
  assumes "inputImage img"
  shows "select [''NDVI''] (features yl img) =
     Inr (img\<lparr>bands := [(''NDVI'', \<lambda>p. bandAt img ''NDVI'' p)]\<rparr>)"
  using inputImage_ndvi [OF assms, unfolded dependentName_def]
  by (simp add: select_def selectBands_def features_def regressorBands_def dependentName_def)

lemma select_regression_features:
  assumes "inputImage img"
  shows "select (independents @ [dependentName]) (features yl img) =
     Inr (img\<lparr>bands := regressorBands (timeRadians yl (the (time_start img))) @
                         [(''NDVI'', \<lambda>p. bandAt img ''NDVI'' p)]\<rparr>)"
  using inputImage_ndvi [OF assms, unfolded dependentName_def]
  by (simp add: select_def selectBands_def features_def independents_eq
      inputImage_no_match [OF assms] regressorBands_def dependentName_def)

lemma inputImage_sampleObservation: "inputImage (sampleObservation ms v)"
  by (simp add: inputImage_def sampleObservation_def bandNames_def dependentName_def
      independents_eq)

lemma inputImage_no_band:
  assumes "inputImage img" and "n \<in> set (''fitted'' # independents)"
  shows "map_of (bands img) n = None"
  using inputImage_fresh [OF assms] by (simp add: map_of_eq_None_iff)

lemma bandAt_features:
  assumes "inputImage img" and "n \<in> set independents"
  shows "bandAt (features yl img) n p =
     (case map_of (regressorBands (timeRadians yl (the (time_start img)))) n of
        None \<Rightarrow> None | Some b \<Rightarrow> b p)"
  using inputImage_no_band [OF assms(1), of n] assms(2)
  by (simp add: bandAt_def features_def map_add_def)

lemma harmonicLandsat_nth:
  assumes "list_all inputImage ndvi" and "i < length ndvi"
  shows "inputImage (ndvi ! i)"
  using assms by (simp add: list_all_length)

subsection \<open>The mean band and the exported coefficients\<close>

lemma reduceImages_single_band:
  assumes "coll \<noteq> []" and "\<And>img. img \<in> set coll \<Longrightarrow> \<exists>b. bands img = [(n, b)]"
  shows "reduceImages r suffix coll =
     Inr (emptyImage\<lparr>bands := [(n @ suffix,
            \<lambda>p. r (unmasked (map (\<lambda>img. snd (hd (bands img)) p) coll)))]\<rparr>)"
proof -
  from assms(1) obtain first rest where c: "coll = first # rest"
    by (cases coll) auto
  have names: "\<And>img. img \<in> set coll \<Longrightarrow> bandNames img = [n]"
    using assms(2) by (fastforce simp: bandNames_def)
  have all: "list_all (\<lambda>img. bandNames img = bandNames first) coll"
    using names c by (simp add: list_all_iff)
  have one: "length (bands first) = 1" "bandNames first ! 0 = n"
    using names [of first] c by (auto simp: bandNames_def dest: map_eq_imp_length_eq)
  have vals: "map (\<lambda>img. snd (bands img ! 0) p) coll = map (\<lambda>img. snd (hd (bands img)) p) coll" for p
  proof (rule map_cong [OF refl])
    fix img assume "img \<in> set coll"
    from assms(2) [OF this] obtain b where "bands img = [(n, b)]" ..
    then show "snd (bands img ! 0) p = snd (hd (bands img)) p" by simp
  qed
  have "reduceImages r suffix coll =
     Inr (emptyImage\<lparr>bands := [(n @ suffix,
            \<lambda>p. r (unmasked (map (\<lambda>img. snd (bands img ! 0) p) coll)))]\<rparr>)"
    using all one by (simp add: reduceImages_def c)
  then show ?thesis
    by (simp only: vals)
qed

lemma mean_band:
  assumes "list_all inputImage ndvi" and "ndvi \<noteq> []"
    and "''NDVI_mean'' \<notin> fst ` set (bands x)"
  shows "harmonicTrendCoefficients_mean (map (features yl) ndvi) x =
     Inr (x\<lparr>bands := bands x @ [(''NDVI_mean'', meanBand ndvi)]\<rparr>)"
proof -
  let ?g = "\<lambda>img. img\<lparr>bands := [(''NDVI'', \<lambda>p. bandAt img ''NDVI'' p)]\<rparr>"
  have sel: "mapE (select [''NDVI'']) (map (features yl) ndvi) = Inr (map ?g ndvi)"
  proof (rule mapE_map_Inr)
    fix img assume "img \<in> set ndvi"
    with assms(1) have "inputImage img" by (simp add: list_all_iff)
    then show "select [''NDVI''] (features yl img) = Inr (?g img)"
      by (rule select_dependent_features)
  qed
  have red: "reduceImages meanReducer ''_mean'' (map ?g ndvi) =
     Inr (emptyImage\<lparr>bands := [(''NDVI'' @ ''_mean'',
            \<lambda>p. meanReducer (unmasked (map (\<lambda>img. snd (hd (bands img)) p) (map ?g ndvi))))]\<rparr>)"
    by (rule reduceImages_single_band) (use assms(2) in auto)
  show ?thesis
    using assms(3)
    by (simp add: harmonicTrendCoefficients_mean_def sel red rename_def addBands_def
        freshName_unused meanBand_def o_def)
qed

lemma exportedCoefficients_bands:
  assumes "list_all inputImage ndvi" and "ndvi \<noteq> []"
  shows "exportedCoefficients (map (features yl) ndvi) trend =
     Inr (emptyImage\<lparr>bands := coefficientBands trend @ amplitudeBands trend @ phaseBands trend @
                                 [(''NDVI_mean'', meanBand ndvi)]\<rparr>)"
proof -
  have "''NDVI_mean'' \<notin> fst ` set (bands (emptyImage\<lparr>bands :=
      coefficientBands trend @ amplitudeBands trend @ phaseBands trend\<rparr> :: 'a image))"
    by (simp add: coefficientBands_def amplitudeBands_def phaseBands_def)
  from mean_band [OF assms this, of yl] show ?thesis
    by (simp add: exportedCoefficients_def amplitude_bands phase_bands)
qed

lemma harmonic_index_cases:
  assumes "i \<in> {1..harmonics}"
  shows "i = 1 \<or> i = 2 \<or> i = 3"
  using assms by (auto simp: harmonics_def)

lemma derivedBand_Some:
  "s p = Some x \<Longrightarrow> c p = Some y \<Longrightarrow> derivedBand f g s c p = Some (g (f x y))"
  by (simp add: derivedBand_def lift1_def lift2_def)

lemma derived_lookup:
  assumes "bands img = coefficientBands trend @ amplitudeBands trend @ phaseBands trend @ extra"
    and "i \<in> {1..harmonics}"
  shows "\<exists>js jc. js < 8 \<and> jc < 8 \<and>
    bandAt img (''sin_'' @ string_of_nat i) p = coefBand trend js p \<and>
    bandAt img (''cos_'' @ string_of_nat i) p = coefBand trend jc p \<and>
    bandAt img (''amplitude_'' @ string_of_nat i) p =
      derivedBand hypot (\<lambda>v. v * 5) (coefBand trend js) (coefBand trend jc) p \<and>
    bandAt img (''phase_'' @ string_of_nat i) p =
      derivedBand atan2 (unitScale (- pi) pi) (coefBand trend js) (coefBand trend jc) p"
proof -
  have 1: "bandAt img ''sin_1'' p = coefBand trend 5 p \<and>
    bandAt img ''cos_1'' p = coefBand trend 2 p \<and>
    bandAt img ''amplitude_1'' p =
      derivedBand hypot (\<lambda>v. v * 5) (coefBand trend 5) (coefBand trend 2) p \<and>
    bandAt img ''phase_1'' p =
      derivedBand atan2 (unitScale (- pi) pi) (coefBand trend 5) (coefBand trend 2) p"
    by (simp add: bandAt_def assms(1) coefficientBands_def amplitudeBands_def phaseBands_def
        derivedBand_def)
  have 2: "bandAt img ''sin_2'' p = coefBand trend 6 p \<and>
    bandAt img ''cos_2'' p = coefBand trend 3 p \<and>
    bandAt img ''amplitude_2'' p =
      derivedBand hypot (\<lambda>v. v * 5) (coefBand trend 6) (coefBand trend 3) p \<and>
    bandAt img ''phase_2'' p =
      derivedBand atan2 (unitScale (- pi) pi) (coefBand trend 6) (coefBand trend 3) p"
    by (simp add: bandAt_def assms(1) coefficientBands_def amplitudeBands_def phaseBands_def
        derivedBand_def)
  have 3: "bandAt img ''sin_3'' p = coefBand trend 7 p \<and>
    bandAt img ''cos_3'' p = coefBand trend 4 p \<and>
    bandAt img ''amplitude_3'' p =
      derivedBand hypot (\<lambda>v. v * 5) (coefBand trend 7) (coefBand trend 4) p \<and>
    bandAt img ''phase_3'' p =
      derivedBand atan2 (unitScale (- pi) pi) (coefBand trend 7) (coefBand trend 4) p"
    by (simp add: bandAt_def assms(1) coefficientBands_def amplitudeBands_def phaseBands_def
        derivedBand_def)
  from harmonic_index_cases [OF assms(2)] show ?thesis
  proof (elim disjE)
    assume "i = 1"
    with 1 show ?thesis
      by (intro exI [of _ 5] exI [of _ 2]) (simp add: string_of_nat_digits)
  next
    assume "i = 2"
    with 2 show ?thesis
      by (intro exI [of _ 6] exI [of _ 3]) (simp add: string_of_nat_digits)
  next
    assume "i = 3"
    with 3 show ?thesis
      by (intro exI [of _ 7] exI [of _ 4]) (simp add: string_of_nat_digits)
  qed
qed

subsection \<open>The range of the phase\<close>

lemma atan2_bounds: "- pi \<le> atan2 y x \<and> atan2 y x \<le> pi"
proof -
  have l: "- (pi / 2) < arctan (y / x)" by (rule arctan_lbound)
  have u: "arctan (y / x) < pi / 2" by (rule arctan_ubound)
  have p: "0 < pi" by (rule pi_gt_zero)
  consider "0 < x" | "x < 0" "0 \<le> y" | "x < 0" "y < 0" | "x = 0" "0 < y" | "x = 0" "y < 0"
    | "x = 0" "y = 0"
    by linarith
  then show ?thesis
  proof cases
    case 1
    then have "atan2 y x = arctan (y / x)" by (simp add: atan2_def)
    with l u p show ?thesis by linarith
  next
    case 2
    then have "y / x \<le> 0" by (simp add: divide_nonneg_neg)
    then have "arctan (y / x) \<le> 0" by simp
    moreover from 2 have "atan2 y x = arctan (y / x) + pi" by (simp add: atan2_def)
    ultimately show ?thesis using l p by linarith
  next
    case 3
    then have "0 < y / x" by (simp add: divide_neg_neg)
    then have "0 < arctan (y / x)" by simp
    moreover from 3 have "atan2 y x = arctan (y / x) - pi" by (simp add: atan2_def)
    ultimately show ?thesis using u p by linarith
  next
    case 4
    then have "atan2 y x = pi / 2" by (simp add: atan2_def)
    with p show ?thesis by linarith
  next
    case 5
    then have "atan2 y x = - (pi / 2)" by (simp add: atan2_def)
    with p show ?thesis by linarith
  next
    case 6
    then have "atan2 y x = 0" by (simp add: atan2_def)
    with p show ?thesis by linarith
  qed
qed

lemma unitScale_pi: "unitScale (- pi) pi a = (a + pi) / (2 * pi)"
  by (simp add: unitScale_def)

lemma phase_unit_interval:
  "0 \<le> (atan2 y x + pi) / (2 * pi) \<and> (atan2 y x + pi) / (2 * pi) \<le> 1"
  using atan2_bounds [of y x] pi_gt_zero by (simp add: field_simps)

lemma sampleTrend_bands:
  assumes "bands img = coefficientBands (sampleTrend c s) @ amplitudeBands (sampleTrend c s) @
      phaseBands (sampleTrend c s) @ extra"
  shows "bandAt img ''sin_1'' () = Some s" and "bandAt img ''cos_1'' () = Some c"
  by (simp_all add: bandAt_def assms coefficientBands_def coefBand_def sampleTrend_def
      independents_eq)

lemma hypot_3_4: "hypot (3 / 10) (2 / 5) = 1 / 2"
  unfolding hypot_def by (rule real_sqrt_unique) (simp_all add: power2_eq_square)

lemma bandAt_outputImage:
  "bandAt (outputImage geometry img) n p =
     (if geometry p then map_option (\<lambda>v. real_of_int (toShort (v * 10000))) (bandAt img n p)
      else None)"
  by (simp add: outputImage_def bandAt_clip bandAt_mapBands option.map_comp o_def)

subsection \<open>The fitted collection\<close>

lemma fitted_features:
  assumes "inputImage img"
  shows "andThen (select independents (features yl img)) (\<lambda>x.
       andThen (multiply x (harmonicTrendCoefficients trend)) (\<lambda>prod.
       andThen (rename [''fitted''] (reduceBands sumReducer ''sum'' prod)) (\<lambda>fitted.
       Inr (addBands (features yl img) fitted)))) = Inr (fittedImage yl trend img)"
  using inputImage_fresh [OF assms, of "''fitted''"]
  unfolding select_independents_features [OF assms]
  by (simp add: harmonicTrendCoefficients_bands
      multiply_def binop_def regressorBands_def coefficientBands_def reduceBands_def valuesAt_def
      rename_def addBands_def features_def freshName_unused fittedImage_def fittedBand_def)

lemma fittedHarmonic_input:
  assumes "list_all inputImage ndvi"
  shows "fittedHarmonic (harmonicTrendCoefficients trend) (map (features yl) ndvi) =
     Inr (map (fittedImage yl trend) ndvi)"
  unfolding fittedHarmonic_def
proof (rule mapE_map_Inr)
  fix img assume "img \<in> set ndvi"
  with assms have "inputImage img" by (simp add: list_all_iff)
  then show "andThen (select independents (features yl img)) (\<lambda>x.
       andThen (multiply x (harmonicTrendCoefficients trend)) (\<lambda>prod.
       andThen (rename [''fitted''] (reduceBands sumReducer ''sum'' prod)) (\<lambda>fitted.
       Inr (addBands (features yl img) fitted)))) = Inr (fittedImage yl trend img)"
    by (rule fitted_features)
qed

lemma bandAt_fitted:
  assumes "inputImage img"
  shows "bandAt (fittedImage yl trend img) ''fitted'' p =
     fittedBand (timeRadians yl (the (time_start img))) trend p"
  using inputImage_no_band [OF assms, of "''fitted''"]
  by (simp add: bandAt_def fittedImage_def map_add_def regressorBands_def)

lemma those_Some: "those xs = Some ys \<Longrightarrow> xs = map Some ys"
  by (induction xs arbitrary: ys) (auto split: option.splits)

lemma design_row_features:
  assumes "inputImage img"
  shows "map (\<lambda>n. bandAt (features yl img) n p) independents =
     map Some (let t = timeRadians yl (the (time_start img))
               in [1, t, cos t, cos (t * 2), cos (t * 3), sin t, sin (t * 2), sin (t * 3)])"
  using inputImage_no_band [OF assms]
  by (simp add: independents_eq bandAt_def features_def map_add_def regressorBands_def Let_def)

lemma coefficient_vector:
  "map (\<lambda>n. bandAt (harmonicTrendCoefficients trend) n p) independents =
     [coefBand trend 0 p, coefBand trend 1 p, coefBand trend 2 p, coefBand trend 3 p,
      coefBand trend 4 p, coefBand trend 5 p, coefBand trend 6 p, coefBand trend 7 p]"
  by (simp add: harmonicTrendCoefficients_bands independents_eq bandAt_def coefficientBands_def)

lemma fittedBand_dot_product:
  assumes "[coefBand trend 0 p, coefBand trend 1 p, coefBand trend 2 p, coefBand trend 3 p,
      coefBand trend 4 p, coefBand trend 5 p, coefBand trend 6 p, coefBand trend 7 p] =
      map Some cs"
  shows "fittedBand t trend p =
     Some (sum_list (map2 (\<lambda>c x. c * x) cs
        [1, t, cos t, cos (t * 2), cos (t * 3), sin t, sin (t * 2), sin (t * 3)]))"
proof -
  from assms obtain c0 c1 c2 c3 c4 c5 c6 c7 where
    cs: "cs = [c0, c1, c2, c3, c4, c5, c6, c7]"
    by (auto simp: Cons_eq_map_conv)
  with assms have "coefBand trend 0 p = Some c0" "coefBand trend 1 p = Some c1"
    "coefBand trend 2 p = Some c2" "coefBand trend 3 p = Some c3"
    "coefBand trend 4 p = Some c4" "coefBand trend 5 p = Some c5"
    "coefBand trend 6 p = Some c6" "coefBand trend 7 p = Some c7"
    by simp_all
  then show ?thesis
    by (simp add: fittedBand_def lift2_def unmasked_def sumReducer_def cs algebra_simps)
qed

subsection \<open>The input of the regression\<close>

lemma those_regressionInput:
  "those (valuesAt p (regressionInput yl img)) =
     map_option (\<lambda>y. designRow (timeRadians yl (the (time_start img))) @ [y])
       (bandAt img ''NDVI'' p)"
  by (cases "bandAt img ''NDVI'' p")
    (simp_all add: valuesAt_def regressionInput_def regressorBands_def designRow_def)

lemma observationsAt_regressionInput:
  "observationsAt 8 p (map (regressionInput yl) ndvi) = seriesObservations yl (pixelSeries p ndvi)"
proof (induction ndvi)
  case Nil
  then show ?case
    by (simp add: observationsAt_def seriesObservations_def pixelSeries_def)
next
  case (Cons img ndvi)
  then show ?case
    by (cases "bandAt img ''NDVI'' p")
      (simp_all add: observationsAt_def seriesObservations_def pixelSeries_def
        those_regressionInput designRow_def)
qed

lemma seriesObservations_length:
  "length (seriesObservations yl (pixelSeries p ndvi)) = length (validObservations p ndvi)"
  by (induction ndvi)
    (auto simp: seriesObservations_def pixelSeries_def validObservations_def)

lemma seriesObservations_rows:
  "map fst (seriesObservations yl (pixelSeries p ndvi)) = designMatrix yl p ndvi"
  by (induction ndvi)
    (auto simp: seriesObservations_def pixelSeries_def validObservations_def designMatrix_def)

lemma harmonicTrend_input:
  assumes "list_all inputImage ndvi"
  shows "harmonicTrend ols (map (features yl) ndvi) =
     Inr (\<lambda>p. linearRegression ols 8 (seriesObservations yl (pixelSeries p ndvi)))"
proof -
  have sel: "mapE (select (independents @ [dependentName])) (map (features yl) ndvi) =
      Inr (map (regressionInput yl) ndvi)"
  proof (rule mapE_map_Inr)
    fix img assume "img \<in> set ndvi"
    with assms have "inputImage img" by (simp add: list_all_iff)
    then show "select (independents @ [dependentName]) (features yl img) =
        Inr (regressionInput yl img)"
      by (simp only: select_regression_features regressionInput_def)
  qed
  have len: "list_all (\<lambda>img. length (bands img) = 8 + 1) (map (regressionInput yl) ndvi)"
    by (simp add: list_all_iff regressionInput_def regressorBands_def)
  have n: "length independents = 8"
    by (simp add: independents_eq)
  show ?thesis
    unfolding harmonicTrend_def sel n
    using len by (simp add: reduceLinearRegression_def observationsAt_regressionInput)
qed

subsection \<open>Masked pixels and the independence of pixels\<close>

lemma coefBand_None: "trend p = None \<Longrightarrow> coefBand trend j p = None"
  by (simp add: coefBand_def)

lemma coefBand_cong: "trend' q = trend q \<Longrightarrow> coefBand trend' j q = coefBand trend j q"
  by (simp add: coefBand_def)

lemma derived_bands_None:
  assumes "trend p = None"
    and "bands img = coefficientBands trend @ amplitudeBands trend @ phaseBands trend @ extra"
    and "n \<in> set (independents @ ampNames @ phaseNames)"
  shows "bandAt img n p = None"
  using assms(3)
  by (auto simp: independents_eq names_eq bandAt_def assms(2) coefficientBands_def
      amplitudeBands_def phaseBands_def lift1_def lift2_def coefBand_None [of trend p, OF assms(1)])

lemma fittedBand_None: "trend p = None \<Longrightarrow> fittedBand t trend p = None"
  by (simp add: fittedBand_def lift2_def coefBand_None unmasked_def sumReducer_def)

lemma fittedBand_cong: "trend' q = trend q \<Longrightarrow> fittedBand t trend' q = fittedBand t trend q"
  by (simp add: fittedBand_def lift2_def coefBand_cong [of trend' q trend])

lemma meanBand_series:
  "meanBand ndvi q = meanReducer (unmasked (map snd (pixelSeries q ndvi)))"
  by (simp add: meanBand_def pixelSeries_def o_def)

lemma exported_valuesAt_cong:
  assumes "trend' q = trend q" and "m' q = m q"
  shows "valuesAt q (emptyImage\<lparr>bands := coefficientBands trend' @ amplitudeBands trend' @
             phaseBands trend' @ [(''NDVI_mean'', m')]\<rparr>) =
         valuesAt q (emptyImage\<lparr>bands := coefficientBands trend @ amplitudeBands trend @
             phaseBands trend @ [(''NDVI_mean'', m)]\<rparr>)"
  by (simp add: valuesAt_def coefficientBands_def amplitudeBands_def phaseBands_def lift1_def
      lift2_def coefBand_cong [of trend' q trend, OF assms(1)] assms(2) cong: option.case_cong)

lemma exported_bandNames:
  "bandNames (emptyImage\<lparr>bands := coefficientBands trend @ amplitudeBands trend @
             phaseBands trend @ [(''NDVI_mean'', m)]\<rparr>) =
   independents @ ampNames @ phaseNames @ [''NDVI_mean'']"
  by (simp add: bandNames_def coefficientBands_def amplitudeBands_def phaseBands_def
      independents_eq names_eq)

lemma fitted_series_cong:
  assumes "list_all inputImage ndvi" and "list_all inputImage ndvi'"
    and "pixelSeries q ndvi' = pixelSeries q ndvi" and "trend' q = trend q"
  shows "map (\<lambda>f. bandAt f ''fitted'' q) (map (fittedImage yl trend') ndvi') =
         map (\<lambda>f. bandAt f ''fitted'' q) (map (fittedImage yl trend) ndvi)"
proof -
  have a: "map (\<lambda>f. bandAt f ''fitted'' q) (map (fittedImage yl t) xs) =
      map (\<lambda>s. fittedBand (timeRadians yl (the (fst s))) t q) (pixelSeries q xs)"
    if "list_all inputImage xs" for xs and t :: "'a \<Rightarrow> real list option"
    using that by (induction xs) (simp_all add: pixelSeries_def bandAt_fitted)
  show ?thesis
    by (simp only: a [OF assms(1)] a [OF assms(2)] assms(3) fittedBand_cong [of trend' q trend, OF assms(4)])
qed

lemma linearRegression_insufficient:
  "length obs < numX \<or> rankDeficient numX (map fst obs) \<Longrightarrow> linearRegression ols numX obs = None"
  by (simp add: linearRegression_def)

lemma pixelSeries_length: "pixelSeries q xs = pixelSeries q ys \<Longrightarrow> length xs = length ys"
  by (auto simp: pixelSeries_def dest: map_eq_imp_length_eq)

text \<open>
  The rank-deficient case is not empty: observations that are all taken at the epoch
  have equal design rows, whose constant and first cosine columns coincide.
\<close>

lemma rankDeficient_coincident:
  "rankDeficient 8 (replicate n (designRow 0))"
  unfolding rankDeficient_def
proof (intro exI [of _ "[1, 0, - 1, 0, 0, 0, 0, 0]"] conjI)
  show "length [1, 0, - 1, 0, 0, 0, 0, 0 :: real] = 8" by simp
  show "\<exists>j<8. [1, 0, - 1, 0, 0, 0, 0, 0 :: real] ! j \<noteq> 0"
    by (intro exI [of _ 0]) simp
  show "\<forall>r\<in>set (replicate n (designRow 0)).
      (\<Sum>j<8. r ! j * [1, 0, - 1, 0, 0, 0, 0, 0] ! j) = 0"
    by (simp add: designRow_def eval_nat_numeral)
qed

subsection \<open>The yearly composites\<close>

lemma stepList_eq:
  "stepList = [2013, 2014, 2015, 2016, 2017, 2018, 2019, 2020, 2021, 2022, 2023]"
  by (simp add: stepList_def upto_rec1)

lemma last_band_lookup:
  "map fst bs = ns @ [k] \<Longrightarrow> k \<notin> set ns \<Longrightarrow> map_of bs k = Some (snd (bs ! length ns))"
proof (induction ns arbitrary: bs)
  case Nil
  then show ?case by (cases bs) auto
next
  case (Cons n ns)
  then show ?case by (cases bs) auto
qed

lemma fittedCollection_pipeline:
  assumes "list_all inputImage ndvi" and "homogeneous ndvi"
  shows "fittedCollection (map (fittedImage yl trend) ndvi)"
proof (cases ndvi)
  case Nil
  then show ?thesis
    unfolding fittedCollection_def by (intro exI [of _ "[]"]) simp
next
  case (Cons first rest)
  let ?ns = "bandNames first @ independents"
  have names: "bandNames (fittedImage yl trend img) = bandNames img @ independents @ [''fitted'']"
    for img :: "'a image"
    by (simp add: bandNames_def fittedImage_def regressorBands_def independents_eq)
  from Cons assms(1) have "inputImage first" by simp
  from inputImage_fresh [OF this, of "''fitted''"] have fresh: "''fitted'' \<notin> set ?ns"
    by (simp add: bandNames_def independents_eq)
  have same: "bandNames img = bandNames first" if "img \<in> set ndvi" for img
    using assms(2) that Cons by (auto simp: homogeneous_def list_all_iff)
  have "\<forall>f\<in>set (map (fittedImage yl trend) ndvi). bandNames f = ?ns @ [''fitted'']"
  proof
    fix f assume "f \<in> set (map (fittedImage yl trend) ndvi)"
    then obtain img where "img \<in> set ndvi" "f = fittedImage yl trend img" by auto
    then show "bandNames f = ?ns @ [''fitted'']"
      by (simp only: names same append_assoc)
  qed
  with fresh show ?thesis
    unfolding fittedCollection_def by (intro exI [of _ ?ns] conjI)
qed

lemma mapE_list_all2:
  "(\<And>x. x \<in> set xs \<Longrightarrow> \<exists>y. f x = Inr y \<and> P x y) \<Longrightarrow>
   \<exists>ys. mapE f xs = Inr ys \<and> list_all2 P xs ys"
proof (induction xs)
  case Nil
  then show ?case by simp
next
  case (Cons x xs)
  from Cons.prems [of x] obtain y where y: "f x = Inr y" "P x y" by auto
  from Cons.IH Cons.prems obtain ys where ys: "mapE f xs = Inr ys" "list_all2 P xs ys"
    by auto
  from y ys show ?case by simp
qed

lemma select_last_fitted:
  assumes "map fst bs = ns @ [''fitted'']" and "''fitted'' \<notin> set ns"
  shows "filter (\<lambda>b. matchesPattern ''fitted'' (fst b)) bs = [bs ! length ns]"
proof -
  have m: "matchesPattern ''fitted'' n = (''fitted'' = n)" for n
    by (rule matchesPattern_literal) simp
  from assms(1) have "length (map fst bs) = length (ns @ [''fitted''])" by simp
  then have len: "length bs = Suc (length ns)" by simp
  then have bs: "bs = take (length ns) bs @ [bs ! length ns]"
    by (simp add: take_Suc_conv_app_nth [symmetric])
  from assms(1) have "take (length ns) (map fst bs) = ns" by simp
  then have "map fst (take (length ns) bs) = ns" by (simp add: take_map)
  then have "fst ` set (take (length ns) bs) = set ns"
    by (metis set_map)
  with assms(2) have 1: "filter (\<lambda>b. ''fitted'' = fst b) (take (length ns) bs) = []"
    by (auto simp: filter_empty_conv)
  from assms(1) have "map fst bs ! length ns = ''fitted''" by simp
  with len have 2: "fst (bs ! length ns) = ''fitted''" by simp
  have "filter (\<lambda>b. ''fitted'' = fst b) bs =
      filter (\<lambda>b. ''fitted'' = fst b) (take (length ns) bs @ [bs ! length ns])"
    using bs by simp
  with 1 2 show ?thesis by (simp add: m)
qed

lemma names_length: "map fst bs = ns @ [k] \<Longrightarrow> length bs = Suc (length ns)"
proof -
  assume "map fst bs = ns @ [k]"
  then have "length (map fst bs) = length (ns @ [k])" by simp
  then show ?thesis by simp
qed

lemma composite_compositeOf:
  assumes "fittedCollection fitted"
  shows "\<exists>c. composite fitted year = Inr c \<and> compositeOf fitted year c"
proof -
  from assms obtain ns where
    ns: "''fitted'' \<notin> set ns" "\<And>f. f \<in> set fitted \<Longrightarrow> bandNames f = ns @ [''fitted'']"
    unfolding fittedCollection_def by blast
  let ?w = "yearWindow fitted year"
  have sub: "f \<in> set ?w \<Longrightarrow> f \<in> set fitted" for f
    by (simp add: yearWindow_def filterDate_def)
  show ?thesis
  proof (cases ?w)
    case Nil
    then have "composite fitted year =
        Inr (emptyImage\<lparr>time_start := Some (fromYMD year 6 1), valid := Some 0\<rparr>)"
      by (simp add: composite_def Let_def yearWindow_def reduceImages_def bandNames_def
          emptyImage_def)
    moreover have "compositeOf fitted year
        (emptyImage\<lparr>time_start := Some (fromYMD year 6 1), valid := Some 0\<rparr>)"
      using Nil by (simp add: compositeOf_def)
    ultimately show ?thesis by blast
  next
    case (Cons first rest)
    let ?g = "\<lambda>j p. medianReducer (unmasked (map (\<lambda>img. snd (bands img ! j) p) ?w))"
    let ?bs = "map (\<lambda>j. (bandNames first ! j @ [], ?g j)) [0..<length (bands first)]"
    let ?c = "emptyImage\<lparr>bands := ?bs, time_start := Some (fromYMD year 6 1), valid := Some 1\<rparr>"
    have names: "bandNames f = ns @ [''fitted'']" if "f \<in> set ?w" for f
      using ns(2) sub that by blast
    have first: "bandNames first = ns @ [''fitted'']"
      using names [of first] Cons by simp
    have all: "list_all (\<lambda>img. bandNames img = bandNames first) ?w"
      using names first by (simp add: list_all_iff)
    have len: "length (bands first) = Suc (length ns)"
      using first unfolding bandNames_def by (rule names_length)
    have red: "reduceImages medianReducer [] ?w = Inr (emptyImage\<lparr>bands := ?bs\<rparr>)"
      using all by (simp add: reduceImages_def Cons)
    have "map fst ?bs = map (\<lambda>j. bandNames first ! j) [0..<length (bandNames first)]"
      by (simp add: o_def bandNames_def)
    also have "\<dots> = bandNames first"
      by (rule map_nth)
    finally have fst_bs: "map fst ?bs = ns @ [''fitted'']"
      using first by simp
    have c: "composite fitted year = Inr ?c"
      using red len unfolding composite_def Let_def yearWindow_def [symmetric]
      by (simp add: bandNames_def)
    have lookup: "snd (bands img ! length ns) p = bandAt img ''fitted'' p"
      if "img \<in> set ?w" for img p
      using last_band_lookup [of "bands img" ns "''fitted''"] names [OF that] ns(1)
      by (simp add: bandNames_def bandAt_def)
    have g: "?g (length ns) = medianFitted ?w"
      unfolding medianFitted_def
      by (intro ext arg_cong [where f = medianReducer] arg_cong [where f = unmasked] map_cong)
        (simp_all add: lookup)
    have nth: "?bs ! length ns = (''fitted'', medianFitted ?w)"
      using len first g by (simp add: bandNames_def nth_append)
    have sel: "select [''fitted''] (?c\<lparr>index := i\<rparr>) = Inr ((yearComposite fitted year)\<lparr>index := i\<rparr>)"
      for i
      using select_last_fitted [OF fst_bs ns(1)] nth Cons
      by (simp add: select_def selectBands_def yearComposite_def emptyImage_def)
    have "compositeOf fitted year ?c"
      using Cons sel by (simp add: compositeOf_def)
    with c show ?thesis by blast
  qed
qed

lemma yearly_chain:
  assumes "fittedCollection fitted"
  shows "\<exists>composites. filterCollection fitted = Inr composites \<and>
     length composites = length stepList \<and>
     map index (yearlyComposites composites) = map string_of_nat (validYears fitted) \<and>
     yearlyNDVI (yearlyComposites composites) =
       Inr (map (\<lambda>i. (yearComposite fitted (stepList ! i))\<lparr>index := string_of_nat i\<rparr>)
              (validYears fitted))"
proof -
  have "\<exists>ys. mapE (composite fitted) stepList = Inr ys \<and>
      list_all2 (compositeOf fitted) stepList ys"
    by (rule mapE_list_all2) (rule composite_compositeOf [OF assms])
  then obtain cs where cs: "filterCollection fitted = Inr cs"
    and rel: "list_all2 (compositeOf fitted) stepList cs"
    unfolding filterCollection_def by blast
  from rel have len: "length cs = length stepList"
    by (simp add: list_all2_lengthD)
  have at: "compositeOf fitted (stepList ! i) (cs ! i)" if "i < length stepList" for i
    using rel that by (simp add: list_all2_nthD)
  have ks: "filter (\<lambda>i. valid (cs ! i) = Some 1) [0..<length cs] = validYears fitted"
    unfolding validYears_def len
    by (rule filter_cong [OF refl]) (use at in \<open>simp add: compositeOf_def\<close>)
  have yc: "yearlyComposites cs =
      map (\<lambda>i. (cs ! i)\<lparr>index := string_of_nat i\<rparr>) (validYears fitted)"
    by (simp add: yearlyComposites_def imageCollection_def filterMetadata_valid_def filter_map
        o_def ks)
  have idx: "map index (yearlyComposites cs) = map string_of_nat (validYears fitted)"
    by (simp add: yc o_def)
  have "yearlyNDVI (yearlyComposites cs) =
      Inr (map (\<lambda>i. (yearComposite fitted (stepList ! i))\<lparr>index := string_of_nat i\<rparr>)
             (validYears fitted))"
    unfolding yearlyNDVI_def yc
  proof (rule mapE_map_Inr)
    fix i assume "i \<in> set (validYears fitted)"
    then have i: "i < length stepList" "yearWindow fitted (stepList ! i) \<noteq> []"
      by (simp_all add: validYears_def)
    from at [OF i(1)] i(2)
    show "select [''fitted''] ((cs ! i)\<lparr>index := string_of_nat i\<rparr>) =
        Inr ((yearComposite fitted (stepList ! i))\<lparr>index := string_of_nat i\<rparr>)"
      by (simp add: compositeOf_def)
  qed
  with cs len idx show ?thesis by blast
qed

lemma toBands_yearly:
  "bands (toBands (map (\<lambda>i. (yearComposite fitted (stepList ! i))\<lparr>index := string_of_nat i\<rparr>)
                     (validYears fitted))) =
   map (\<lambda>i. (string_of_nat i @ ''_fitted'', medianFitted (yearWindow fitted (stepList ! i))))
     (validYears fitted)"
proof -
  have "concat (map (\<lambda>i. [(string_of_nat i @ ''_fitted'',
            medianFitted (yearWindow fitted (stepList ! i)))]) ks) =
      map (\<lambda>i. (string_of_nat i @ ''_fitted'', medianFitted (yearWindow fitted (stepList ! i)))) ks"
    for ks
    by (induction ks) simp_all
  moreover have "map (\<lambda>img. map (\<lambda>b. (index img @ ''_'' @ fst b, snd b)) (bands img))
      (map (\<lambda>i. (yearComposite fitted (stepList ! i))\<lparr>index := string_of_nat i\<rparr>)
         (validYears fitted)) =
      map (\<lambda>i. [(string_of_nat i @ ''_fitted'',
            medianFitted (yearWindow fitted (stepList ! i)))]) (validYears fitted)"
    by (simp add: validYears_def yearComposite_def)
  ultimately show ?thesis
    by (simp add: toBands_def del: map_map)
qed

subsection \<open>The positional selection\<close>

lemma upt11: "[0..<11] = [0, 1, 2, 3, 4, 5, 6, 7, 8, 9, 10]"
  by (simp add: upt_rec)

lemma stepList_length: "length stepList = 11"
  by (simp add: stepList_eq)






lemma select_toBands:
  "select pats (toBands coll) =
     andThen (mapE (selectBands (bands (toBands coll))) pats)
       (\<lambda>found. Inr (emptyImage\<lparr>bands := concat found\<rparr>))"
  by (simp add: select_def toBands_def)










subsection \<open>The sample series\<close>

lemma summer_day: "fromYMD year 6 1 \<le> fromYMD year 7 15 \<and> fromYMD year 7 15 < fromYMD year 9 30"
  by (simp add: fromYMD_def daysFromCivil_def Let_def)

lemma yearWindow_fitted:
  "yearWindow (map (fittedImage yl trend) ndvi) year =
     map (fittedImage yl trend) (filterDate (fromYMD year 6 1) (fromYMD year 9 30) ndvi)"
  by (simp add: yearWindow_def filterDate_def filter_map o_def fittedImage_def)

lemma yearlySeries_input: "list_all inputImage (yearlySeries years)"
  by (simp add: yearlySeries_def list_all_iff inputImage_sampleObservation)

lemma yearlySeries_homogeneous: "homogeneous (yearlySeries years)"
  by (cases years)
    (simp_all add: homogeneous_def yearlySeries_def list_all_iff bandNames_def
      sampleObservation_def)

lemma yearlySeries_window:
  assumes "year \<in> set years"
  shows "yearWindow (map (fittedImage yl trend) (yearlySeries years)) year \<noteq> []"
proof -
  let ?obs = "sampleObservation (fromYMD year 7 15) (1 / 2)"
  have m: "?obs \<in> set (yearlySeries years)"
    using assms by (simp add: yearlySeries_def)
  have "case time_start ?obs of None \<Rightarrow> False
      | Some t \<Rightarrow> fromYMD year 6 1 \<le> t \<and> t < fromYMD year 9 30"
    using summer_day [of year] by (simp add: sampleObservation_def)
  with m have "?obs \<in> set (filterDate (fromYMD year 6 1) (fromYMD year 9 30) (yearlySeries years))"
    by (simp add: filterDate_def)
  then have "filterDate (fromYMD year 6 1) (fromYMD year 9 30) (yearlySeries years) \<noteq> []"
    by auto
  then show ?thesis
    by (simp add: yearWindow_fitted)
qed



lemma gapYears_eq: "gapYears = [2013, 2014, 2016, 2017, 2018, 2019, 2020, 2021, 2022, 2023]"
  by (simp add: gapYears_def stepList_eq)

lemma gap_window_2015:
  "yearWindow (map (fittedImage yl trend) (yearlySeries gapYears)) 2015 = []"
  unfolding yearWindow_fitted
  by (simp add: yearlySeries_def gapYears_eq filterDate_def
      sampleObservation_def fromYMD_def daysFromCivil_def Let_def)

lemma gap_validYears:
  "validYears (map (fittedImage yl trend) (yearlySeries gapYears)) = [0, 1, 3, 4, 5, 6, 7, 8, 9, 10]"
proof -
  have ne: "yearWindow (map (fittedImage yl trend) (yearlySeries gapYears)) year \<noteq> []"
    if "year \<in> set gapYears" for year
    using that by (rule yearlySeries_window)
  have mem: "set gapYears = {2013, 2014, 2016, 2017, 2018, 2019, 2020, 2021, 2022, 2023}"
    by (simp add: gapYears_eq)
  show ?thesis
    unfolding validYears_def stepList_length upt11
    by (simp add: stepList_eq gap_window_2015 ne mem)
qed

section \<open>The claims\<close>

subsection \<open>C1: the amplitude band\<close>

text \<open>
  Claim C1 says that the band \<^verbatim>\<open>amplitude_i\<close> of the exported coefficient raster is
  \<open>hypot sin_i cos_i\<close>. The script multiplies the amplitude by the factor 5 before it
  names the band, and exports that band. At the coefficients \<open>sin_1 = 3 / 10\<close>,
  \<open>cos_1 = 2 / 5\<close> the analytical amplitude is \<open>1 / 2\<close>, the band \<^verbatim>\<open>amplitude_1\<close> is
  \<open>5 / 2\<close> and the exported raster stores 25000, not the encoding of \<open>1 / 2\<close>.
\<close>

theorem amplitude_band_unscaled_counterexample:
  "\<exists>hl img. harmonicLandsat 31556952000 [sampleObservation 0 (1 / 2)] = Inr hl \<and>
     exportedCoefficients hl (sampleTrend (2 / 5) (3 / 10)) = Inr img \<and>
     bandAt img ''sin_1'' () = Some (3 / 10) \<and> bandAt img ''cos_1'' () = Some (2 / 5) \<and>
     bandAt img ''amplitude_1'' () = Some (5 / 2) \<and>
     bandAt (outputImage (\<lambda>p. True) img) ''amplitude_1'' () = Some 25000 \<and>
     hypot (3 / 10) (2 / 5) = 1 / 2 \<and>
     bandAt img ''amplitude_1'' () \<noteq> Some (hypot (3 / 10) (2 / 5)) \<and>
     bandAt (outputImage (\<lambda>p. True) img) ''amplitude_1'' () \<noteq>
       Some (real_of_int (toShort (hypot (3 / 10) (2 / 5) * 10000)))"
proof -
  let ?ndvi = "[sampleObservation 0 (1 / 2)]"
  let ?t = "sampleTrend (2 / 5) (3 / 10)"
  let ?img = "emptyImage\<lparr>bands := coefficientBands ?t @ amplitudeBands ?t @ phaseBands ?t @
      [(''NDVI_mean'', meanBand ?ndvi)]\<rparr>"
  have ok: "list_all inputImage ?ndvi"
    by (simp add: inputImage_sampleObservation)
  have hl: "harmonicLandsat 31556952000 ?ndvi = Inr (map (features 31556952000) ?ndvi)"
    by (rule harmonicLandsat_input [OF ok])
  have img: "exportedCoefficients (map (features 31556952000) ?ndvi) ?t = Inr ?img"
    by (rule exportedCoefficients_bands [OF ok]) simp
  have b: "bands ?img = coefficientBands ?t @ amplitudeBands ?t @ phaseBands ?t @
      [(''NDVI_mean'', meanBand ?ndvi)]"
    by simp
  have s: "bandAt ?img ''sin_1'' () = Some (3 / 10)" and c: "bandAt ?img ''cos_1'' () = Some (2 / 5)"
    using sampleTrend_bands [OF b] by simp_all
  have "1 \<in> {1..harmonics}" by (simp add: harmonics_def)
  from derived_lookup [OF b this, of "()"] obtain js jc where
    l: "bandAt ?img ''sin_1'' () = coefBand ?t js ()" "bandAt ?img ''cos_1'' () = coefBand ?t jc ()"
      "bandAt ?img ''amplitude_1'' () =
         derivedBand hypot (\<lambda>v. v * 5) (coefBand ?t js) (coefBand ?t jc) ()"
    by (auto simp: string_of_nat_digits)
  have js: "coefBand ?t js () = Some (3 / 10)" using s l(1) by simp
  have jc: "coefBand ?t jc () = Some (2 / 5)" using c l(2) by simp
  have "derivedBand hypot (\<lambda>v. v * 5) (coefBand ?t js) (coefBand ?t jc) () =
      Some (hypot (3 / 10) (2 / 5) * 5)"
    using js jc by (rule derivedBand_Some [where s = "coefBand ?t js" and c = "coefBand ?t jc"])
  with l(3) have a: "bandAt ?img ''amplitude_1'' () = Some (5 / 2)"
    by (simp add: hypot_3_4)
  have out: "bandAt (outputImage (\<lambda>p. True) ?img) ''amplitude_1'' () = Some 25000"
    by (simp add: bandAt_outputImage a toShort_def)
  have ne: "bandAt ?img ''amplitude_1'' () \<noteq> Some (hypot (3 / 10) (2 / 5))"
    by (simp add: a hypot_3_4)
  have ne': "bandAt (outputImage (\<lambda>p. True) ?img) ''amplitude_1'' () \<noteq>
       Some (real_of_int (toShort (hypot (3 / 10) (2 / 5) * 10000)))"
    by (simp add: out hypot_3_4 toShort_def)
  from hl img s c a out hypot_3_4 ne ne' show ?thesis by blast
qed

text \<open>
  Claim C1 as amended. For every pixel and every harmonic index \<open>i\<close> in \<open>1..k\<close> whose
  coefficients \<open>sin_i\<close> and \<open>cos_i\<close> are defined, the band \<^verbatim>\<open>amplitude_i\<close> of the
  coefficient image is \<open>5 * hypot sin_i cos_i\<close>, and inside the export geometry the
  exported raster stores that value times 10000, cast to a 16-bit integer.
\<close>

theorem amplitude_band_scaled:
  assumes "list_all inputImage ndvi" and "ndvi \<noteq> []"
  shows "\<exists>hl img. harmonicLandsat yearMillis ndvi = Inr hl \<and>
     exportedCoefficients hl trend = Inr img \<and>
     (\<forall>i\<in>{1..harmonics}. \<forall>p s c.
        bandAt img (''sin_'' @ string_of_nat i) p = Some s \<longrightarrow>
        bandAt img (''cos_'' @ string_of_nat i) p = Some c \<longrightarrow>
        bandAt img (''amplitude_'' @ string_of_nat i) p = Some (5 * hypot s c) \<and>
        (geometry p \<longrightarrow>
           bandAt (outputImage geometry img) (''amplitude_'' @ string_of_nat i) p =
             Some (real_of_int (toShort (5 * hypot s c * 10000)))))"
proof -
  let ?img = "emptyImage\<lparr>bands := coefficientBands trend @ amplitudeBands trend @
      phaseBands trend @ [(''NDVI_mean'', meanBand ndvi)]\<rparr>"
  have hl: "harmonicLandsat yearMillis ndvi = Inr (map (features yearMillis) ndvi)"
    by (rule harmonicLandsat_input [OF assms(1)])
  have img: "exportedCoefficients (map (features yearMillis) ndvi) trend = Inr ?img"
    by (rule exportedCoefficients_bands [OF assms])
  have b: "bands ?img = coefficientBands trend @ amplitudeBands trend @ phaseBands trend @
      [(''NDVI_mean'', meanBand ndvi)]"
    by simp
  have amp: "bandAt ?img (''amplitude_'' @ string_of_nat i) p = Some (5 * hypot s c)"
    if i: "i \<in> {1..harmonics}" and s: "bandAt ?img (''sin_'' @ string_of_nat i) p = Some s"
      and c: "bandAt ?img (''cos_'' @ string_of_nat i) p = Some c" for i p s c
  proof -
    from derived_lookup [OF b i, of p] obtain js jc where
      l: "bandAt ?img (''sin_'' @ string_of_nat i) p = coefBand trend js p"
        "bandAt ?img (''cos_'' @ string_of_nat i) p = coefBand trend jc p"
        "bandAt ?img (''amplitude_'' @ string_of_nat i) p =
          derivedBand hypot (\<lambda>v. v * 5) (coefBand trend js) (coefBand trend jc) p"
      by blast
    have js: "coefBand trend js p = Some s" using s l(1) by simp
    have jc: "coefBand trend jc p = Some c" using c l(2) by simp
    have "derivedBand hypot (\<lambda>v. v * 5) (coefBand trend js) (coefBand trend jc) p =
        Some (hypot s c * 5)"
      using js jc by (rule derivedBand_Some [where s = "coefBand trend js" and c = "coefBand trend jc"])
    with l(3) show ?thesis
      by (simp add: mult.commute)
  qed
  have "bandAt (outputImage geometry ?img) (''amplitude_'' @ string_of_nat i) p =
      Some (real_of_int (toShort (5 * hypot s c * 10000)))"
    if "i \<in> {1..harmonics}" "bandAt ?img (''sin_'' @ string_of_nat i) p = Some s"
      "bandAt ?img (''cos_'' @ string_of_nat i) p = Some c" "geometry p" for i p s c
    using amp [OF that(1,2,3)] that(4) by (simp only: bandAt_outputImage) simp
  with amp hl img show ?thesis by blast
qed

text \<open>The instance of the amended C1 at the coefficients \<open>sin_1 = 3 / 10\<close>, \<open>cos_1 = 2 / 5\<close>.\<close>

theorem amplitude_band_scaled_witness:
  "list_all inputImage [sampleObservation 0 (1 / 2)] \<and>
   [sampleObservation 0 (1 / 2)] \<noteq> [] \<and>
   (\<exists>hl img. harmonicLandsat 31556952000 [sampleObservation 0 (1 / 2)] = Inr hl \<and>
      exportedCoefficients hl (sampleTrend (2 / 5) (3 / 10)) = Inr img \<and>
      bandAt img ''sin_1'' () = Some (3 / 10) \<and> bandAt img ''cos_1'' () = Some (2 / 5) \<and>
      bandAt img ''amplitude_1'' () = Some (5 * hypot (3 / 10) (2 / 5)) \<and>
      bandAt (outputImage (\<lambda>p. True) img) ''amplitude_1'' () =
        Some (real_of_int (toShort (5 * hypot (3 / 10) (2 / 5) * 10000))))"
proof -
  let ?ndvi = "[sampleObservation 0 (1 / 2)]"
  let ?t = "sampleTrend (2 / 5) (3 / 10)"
  have ok: "list_all inputImage ?ndvi"
    by (simp add: inputImage_sampleObservation)
  have ne: "?ndvi \<noteq> []" by simp
  from amplitude_band_scaled [OF ok ne, of 31556952000 ?t "\<lambda>p. True"] obtain hl img where
    hl: "harmonicLandsat 31556952000 ?ndvi = Inr hl" and
    img: "exportedCoefficients hl ?t = Inr img" and
    amp: "\<forall>i\<in>{1..harmonics}. \<forall>p s c.
        bandAt img (''sin_'' @ string_of_nat i) p = Some s \<longrightarrow>
        bandAt img (''cos_'' @ string_of_nat i) p = Some c \<longrightarrow>
        bandAt img (''amplitude_'' @ string_of_nat i) p = Some (5 * hypot s c) \<and>
        (True \<longrightarrow>
           bandAt (outputImage (\<lambda>p. True) img) (''amplitude_'' @ string_of_nat i) p =
             Some (real_of_int (toShort (5 * hypot s c * 10000))))"
    by blast
  from hl img have "bands img = coefficientBands ?t @ amplitudeBands ?t @ phaseBands ?t @
      [(''NDVI_mean'', meanBand ?ndvi)]"
    using exportedCoefficients_bands [OF ok ne, of 31556952000 ?t]
    by (auto simp: harmonicLandsat_input [OF ok])
  from sampleTrend_bands [OF this] have
    s: "bandAt img ''sin_1'' () = Some (3 / 10)" and c: "bandAt img ''cos_1'' () = Some (2 / 5)"
    by simp_all
  have "1 \<in> {1..harmonics}" by (simp add: harmonics_def)
  with amp s c have
    "bandAt img ''amplitude_1'' () = Some (5 * hypot (3 / 10) (2 / 5)) \<and>
     bandAt (outputImage (\<lambda>p. True) img) ''amplitude_1'' () =
        Some (real_of_int (toShort (5 * hypot (3 / 10) (2 / 5) * 10000)))"
    by (fastforce simp: string_of_nat_digits)
  with ok hl img s c show ?thesis by blast
qed

subsection \<open>C2: a year without observations\<close>

text \<open>
  Claim C2 says that a year with no observation in its window is dropped from the
  output stack, whose band count decreases by one while the other years keep their
  order and their year labels. The script does drop the composite of that year from
  \<^verbatim>\<open>yearlyComposites\<close>, but the export then selects all eleven positional band names.
  With one observation on July 15 of every year but 2015, ten composites are stacked,
  with the indices 0, 1, 3, .., 10, and the selection of \<^verbatim>\<open>2_fitted\<close> fails: there is
  no output stack at all.
\<close>

theorem empty_year_breaks_positional_select:
  "\<exists>hl fitted composites yn.
     harmonicLandsat 31556952000 (yearlySeries gapYears) = Inr hl \<and>
     fittedHarmonic (harmonicTrendCoefficients (sampleTrend 0 0)) hl = Inr fitted \<and>
     filterDate (fromYMD 2015 6 1) (fromYMD 2015 9 30) fitted = [] \<and>
     filterCollection fitted = Inr composites \<and> length composites = 11 \<and>
     map index (yearlyComposites composites) =
       [''0'', ''1'', ''3'', ''4'', ''5'', ''6'', ''7'', ''8'', ''9'', ''10''] \<and>
     yearlyNDVI (yearlyComposites composites) = Inr yn \<and>
     bandNames (toBands yn) =
       [''0_fitted'', ''1_fitted'', ''3_fitted'', ''4_fitted'', ''5_fitted'', ''6_fitted'',
        ''7_fitted'', ''8_fitted'', ''9_fitted'', ''10_fitted''] \<and>
     selectedYears yn = Inl (NoSuchBand ''2_fitted'') \<and>
     outImage yn = Inl (NoSuchBand ''2_fitted'')"
proof -
  let ?ndvi = "yearlySeries gapYears"
  let ?t = "sampleTrend 0 0 :: unit \<Rightarrow> real list option"
  let ?fitted = "map (fittedImage 31556952000 ?t) ?ndvi"
  let ?yn = "map (\<lambda>i. (yearComposite ?fitted (stepList ! i))\<lparr>index := string_of_nat i\<rparr>)
      (validYears ?fitted)"
  have ok: "list_all inputImage ?ndvi" by (rule yearlySeries_input)
  have hom: "homogeneous ?ndvi" by (rule yearlySeries_homogeneous)
  have hl: "harmonicLandsat 31556952000 ?ndvi = Inr (map (features 31556952000) ?ndvi)"
    by (rule harmonicLandsat_input [OF ok])
  have fitted: "fittedHarmonic (harmonicTrendCoefficients ?t) (map (features 31556952000) ?ndvi)
      = Inr ?fitted"
    by (rule fittedHarmonic_input [OF ok])
  have w: "filterDate (fromYMD 2015 6 1) (fromYMD 2015 9 30) ?fitted = []"
    using gap_window_2015 [of 31556952000 ?t] by (simp add: yearWindow_def)
  from yearly_chain [OF fittedCollection_pipeline [OF ok hom, of 31556952000 ?t]]
  obtain composites where
    c: "filterCollection ?fitted = Inr composites" "length composites = length stepList"
      "map index (yearlyComposites composites) = map string_of_nat (validYears ?fitted)"
      "yearlyNDVI (yearlyComposites composites) = Inr ?yn"
    by blast
  have len: "length composites = 11"
    using c(2) by (simp add: stepList_length)
  have idx: "map index (yearlyComposites composites) =
      [''0'', ''1'', ''3'', ''4'', ''5'', ''6'', ''7'', ''8'', ''9'', ''10'']"
    by (simp add: c(3) gap_validYears string_of_nat_digits)
  have names: "bandNames (toBands ?yn) =
      [''0_fitted'', ''1_fitted'', ''3_fitted'', ''4_fitted'', ''5_fitted'', ''6_fitted'',
        ''7_fitted'', ''8_fitted'', ''9_fitted'', ''10_fitted'']"
    unfolding bandNames_def toBands_yearly
    unfolding gap_validYears
    by (simp add: string_of_nat_digits)
  have sel: "selectedYears ?yn = Inl (NoSuchBand ''2_fitted'')"
    unfolding selectedYears_def select_toBands toBands_yearly
    unfolding gap_validYears
    by (simp add: string_of_nat_digits positionalNames_def selectBands_def)
  then have out: "outImage ?yn = Inl (NoSuchBand ''2_fitted'')"
    by (simp add: outImage_def)
  show ?thesis
    apply (rule exI [of _ "map (features 31556952000) ?ndvi"])
    apply (rule exI [of _ ?fitted])
    apply (rule exI [of _ composites])
    apply (rule exI [of _ ?yn])
    apply (intro conjI)
             apply (rule hl)
            apply (rule fitted)
           apply (rule w)
          apply (rule c(1))
         apply (rule len)
        apply (rule idx)
       apply (rule c(4))
      apply (rule names)
     apply (rule sel)
    apply (rule out)
    done
qed

subsection \<open>C3: the order of the design row\<close>

text \<open>
  Claim C3. For every observation of the series, the regression design row selected by
  \<^verbatim>\<open>independents\<close> has the fixed column order \<^verbatim>\<open>constant\<close>, \<^verbatim>\<open>t\<close>,
  \<^verbatim>\<open>cos_1\<close>..\<^verbatim>\<open>cos_k\<close>, \<^verbatim>\<open>sin_1\<close>..\<^verbatim>\<open>sin_k\<close>: its values at every pixel are
  \<open>1\<close>, the time term \<open>t\<close>, the cosines \<open>cos (t * f)\<close> for the frequencies
  \<open>f = 1..k\<close> and then the sines \<open>sin (t * f)\<close>, and its width is \<open>2 + 2k\<close>.
\<close>

theorem design_row_order:
  assumes "list_all inputImage ndvi"
  shows "\<exists>hl. harmonicLandsat yearMillis ndvi = Inr hl \<and> length hl = length ndvi \<and>
     (\<forall>i<length ndvi. \<exists>x t.
        select independents (hl ! i) = Inr x \<and>
        bandNames x = [''constant'', ''t''] @ cosNames @ sinNames \<and>
        length (bands x) = 2 + 2 * harmonics \<and>
        (\<forall>p. bandAt (hl ! i) ''t'' p = Some t) \<and>
        (\<forall>p. valuesAt p x =
           map Some ([1, t] @ map (\<lambda>f. cos (t * real f)) harmonicFrequencies @
                              map (\<lambda>f. sin (t * real f)) harmonicFrequencies)))"
proof -
  let ?hl = "map (features yearMillis) ndvi"
  have hl: "harmonicLandsat yearMillis ndvi = Inr ?hl"
    by (rule harmonicLandsat_input [OF assms])
  have row: "\<exists>x t.
        select independents (?hl ! i) = Inr x \<and>
        bandNames x = [''constant'', ''t''] @ cosNames @ sinNames \<and>
        length (bands x) = 2 + 2 * harmonics \<and>
        (\<forall>p. bandAt (?hl ! i) ''t'' p = Some t) \<and>
        (\<forall>p. valuesAt p x =
           map Some ([1, t] @ map (\<lambda>f. cos (t * real f)) harmonicFrequencies @
                              map (\<lambda>f. sin (t * real f)) harmonicFrequencies))"
    if i: "i < length ndvi" for i
  proof -
    let ?t = "timeRadians yearMillis (the (time_start (ndvi ! i)))"
    let ?x = "(ndvi ! i)\<lparr>bands := regressorBands ?t\<rparr>"
    have ok: "inputImage (ndvi ! i)"
      by (rule harmonicLandsat_nth [OF assms i])
    have 1: "select independents (?hl ! i) = Inr ?x"
      using i by (simp add: select_independents_features [OF ok])
    have 2: "bandNames ?x = [''constant'', ''t''] @ cosNames @ sinNames"
      by (simp add: bandNames_def regressorBands_def names_eq)
    have 3: "length (bands ?x) = 2 + 2 * harmonics"
      by (simp add: regressorBands_def harmonics_def)
    have 4: "\<forall>p. valuesAt p ?x =
           map Some ([1, ?t] @ map (\<lambda>f. cos (?t * real f)) harmonicFrequencies @
                               map (\<lambda>f. sin (?t * real f)) harmonicFrequencies)"
      by (simp add: valuesAt_def regressorBands_def harmonicFrequencies_eq)
    have 5: "\<forall>p. bandAt (?hl ! i) ''t'' p = Some ?t"
      using i by (simp add: bandAt_features [OF ok] independents_eq regressorBands_def)
    from 1 2 3 4 5 show ?thesis by blast
  qed
  from hl row show ?thesis by auto
qed

text \<open>The instance of C3 for a series of one observation.\<close>

theorem design_row_order_witness:
  "list_all inputImage [sampleObservation 0 (1 / 2)] \<and>
   (\<exists>hl x t. harmonicLandsat 31556952000 [sampleObservation 0 (1 / 2)] = Inr hl \<and>
      select independents (hl ! 0) = Inr x \<and>
      bandNames x = [''constant'', ''t'', ''cos_1'', ''cos_2'', ''cos_3'',
                     ''sin_1'', ''sin_2'', ''sin_3''] \<and>
      length (bands x) = 8 \<and>
      bandAt (hl ! 0) ''t'' () = Some t \<and>
      valuesAt () x = [Some 1, Some t, Some (cos t), Some (cos (t * 2)), Some (cos (t * 3)),
                       Some (sin t), Some (sin (t * 2)), Some (sin (t * 3))])"
proof -
  have ok: "list_all inputImage [sampleObservation 0 (1 / 2)]"
    by (simp add: inputImage_sampleObservation)
  from design_row_order [OF ok, of 31556952000] obtain hl x t where
    "harmonicLandsat 31556952000 [sampleObservation 0 (1 / 2)] = Inr hl"
    "select independents (hl ! 0) = Inr x"
    "bandNames x = [''constant'', ''t''] @ cosNames @ sinNames"
    "length (bands x) = 2 + 2 * harmonics"
    "\<forall>p. bandAt (hl ! 0) ''t'' p = Some t"
    "\<forall>p. valuesAt p x =
           map Some ([1, t] @ map (\<lambda>f. cos (t * real f)) harmonicFrequencies @
                              map (\<lambda>f. sin (t * real f)) harmonicFrequencies)"
    by auto
  then show ?thesis
    using ok by (simp add: names_eq harmonics_def harmonicFrequencies_eq)
qed

subsection \<open>C4: the phase band\<close>

text \<open>
  Claim C4. For every harmonic index \<open>i\<close> and every pixel whose fitted pair
  \<open>(sin_i, cos_i)\<close> is defined and not both zero, the band \<^verbatim>\<open>phase_i\<close> is
  \<open>atan2 sin_i cos_i\<close> rescaled linearly from \<open>[-\<pi>, \<pi>]\<close> to \<open>[0, 1]\<close>, that is
  \<open>(atan2 sin_i cos_i + \<pi>) / (2\<pi>)\<close>, and it lies in the closed interval \<open>[0, 1]\<close>.
  The coefficients are those of any regression result \<open>trend\<close>.
\<close>

theorem phase_band_unit_interval:
  "\<exists>a img. harmonicTrendCoefficients_amplitude (harmonicTrendCoefficients trend) = Inr a \<and>
     harmonicTrendCoefficients_phase a = Inr img \<and>
     (\<forall>i\<in>{1..harmonics}. \<forall>p s c.
        bandAt img (''sin_'' @ string_of_nat i) p = Some s \<longrightarrow>
        bandAt img (''cos_'' @ string_of_nat i) p = Some c \<longrightarrow>
        \<not> (s = 0 \<and> c = 0) \<longrightarrow>
        bandAt img (''phase_'' @ string_of_nat i) p = Some ((atan2 s c + pi) / (2 * pi)) \<and>
        0 \<le> (atan2 s c + pi) / (2 * pi) \<and> (atan2 s c + pi) / (2 * pi) \<le> 1)"
proof -
  let ?a = "emptyImage\<lparr>bands := coefficientBands trend @ amplitudeBands trend\<rparr> :: 'a image"
  let ?img = "emptyImage\<lparr>bands := coefficientBands trend @ amplitudeBands trend @
      phaseBands trend\<rparr> :: 'a image"
  have b: "bands ?img = coefficientBands trend @ amplitudeBands trend @ phaseBands trend @ []"
    by simp
  have "bandAt ?img (''phase_'' @ string_of_nat i) p = Some ((atan2 s c + pi) / (2 * pi))"
    if i: "i \<in> {1..harmonics}" and s: "bandAt ?img (''sin_'' @ string_of_nat i) p = Some s"
      and c: "bandAt ?img (''cos_'' @ string_of_nat i) p = Some c" for i p s c
  proof -
    from derived_lookup [OF b i, of p] obtain js jc where
      l: "bandAt ?img (''sin_'' @ string_of_nat i) p = coefBand trend js p"
        "bandAt ?img (''cos_'' @ string_of_nat i) p = coefBand trend jc p"
        "bandAt ?img (''phase_'' @ string_of_nat i) p =
          derivedBand atan2 (unitScale (- pi) pi) (coefBand trend js) (coefBand trend jc) p"
      by blast
    have js: "coefBand trend js p = Some s" using s l(1) by simp
    have jc: "coefBand trend jc p = Some c" using c l(2) by simp
    have "derivedBand atan2 (unitScale (- pi) pi) (coefBand trend js) (coefBand trend jc) p =
        Some (unitScale (- pi) pi (atan2 s c))"
      using js jc by (rule derivedBand_Some [where s = "coefBand trend js" and c = "coefBand trend jc"])
    with l(3) show ?thesis
      by (simp add: unitScale_pi)
  qed
  then show ?thesis
    using amplitude_bands [of trend] phase_bands [of trend] phase_unit_interval
    by blast
qed

text \<open>
  The instance of C4 for the coefficients \<open>cos_1 = 1 / 5\<close>, \<open>sin_1 = 0\<close>: the phase is
  the midpoint \<open>1 / 2\<close>.
\<close>

theorem phase_band_unit_interval_witness:
  "\<exists>a img. harmonicTrendCoefficients_amplitude (harmonicTrendCoefficients (sampleTrend (1 / 5) 0))
       = Inr a \<and>
     harmonicTrendCoefficients_phase a = Inr img \<and>
     bandAt img ''sin_1'' () = Some 0 \<and> bandAt img ''cos_1'' () = Some (1 / 5) \<and>
     bandAt img ''phase_1'' () = Some (1 / 2)"
proof -
  from phase_band_unit_interval [of "sampleTrend (1 / 5) 0"] obtain a img where
    a: "harmonicTrendCoefficients_amplitude (harmonicTrendCoefficients (sampleTrend (1 / 5) 0))
       = Inr a" and
    img: "harmonicTrendCoefficients_phase a = Inr img" and
    ph: "\<forall>i\<in>{1..harmonics}. \<forall>p s c.
        bandAt img (''sin_'' @ string_of_nat i) p = Some s \<longrightarrow>
        bandAt img (''cos_'' @ string_of_nat i) p = Some c \<longrightarrow>
        \<not> (s = 0 \<and> c = 0) \<longrightarrow>
        bandAt img (''phase_'' @ string_of_nat i) p = Some ((atan2 s c + pi) / (2 * pi)) \<and>
        0 \<le> (atan2 s c + pi) / (2 * pi) \<and> (atan2 s c + pi) / (2 * pi) \<le> 1"
    by blast
  from a img have "bands img = coefficientBands (sampleTrend (1 / 5) 0) @
      amplitudeBands (sampleTrend (1 / 5) 0) @ phaseBands (sampleTrend (1 / 5) 0) @ []"
    by (auto simp: amplitude_bands phase_bands)
  from sampleTrend_bands [OF this] have
    s: "bandAt img ''sin_1'' () = Some 0" and c: "bandAt img ''cos_1'' () = Some (1 / 5)"
    by simp_all
  have "1 \<in> {1..harmonics}" by (simp add: harmonics_def)
  with ph s c have "bandAt img ''phase_1'' () = Some ((atan2 0 (1 / 5) + pi) / (2 * pi))"
    by (fastforce simp: string_of_nat_digits)
  then have "bandAt img ''phase_1'' () = Some (1 / 2)"
    by (simp add: atan2_def)
  with a img s c show ?thesis by blast
qed

subsection \<open>C5: the time regressor\<close>

text \<open>
  Claim C5. For every observation, the band \<^verbatim>\<open>t\<close> added by \<^verbatim>\<open>addTime\<close> is the time
  elapsed from the epoch 1970-01-01 to the timestamp of the observation, in fractional
  years (the elapsed milliseconds divided by the length of a year), multiplied by
  \<open>2\<pi>\<close>, at every pixel.
\<close>

theorem time_regressor:
  assumes "list_all inputImage ndvi"
  shows "\<exists>hl. harmonicLandsat yearMillis ndvi = Inr hl \<and> length hl = length ndvi \<and>
     (\<forall>i<length ndvi. \<forall>ms p. time_start (ndvi ! i) = Some ms \<longrightarrow>
        bandAt (hl ! i) ''t'' p =
          Some (real_of_int (ms - fromYMD 1970 1 1) / yearMillis * (2 * pi)))"
proof (intro exI conjI allI impI)
  show "harmonicLandsat yearMillis ndvi = Inr (map (features yearMillis) ndvi)"
    by (rule harmonicLandsat_input [OF assms])
  show "length (map (features yearMillis) ndvi) = length ndvi" by simp
next
  fix i ms p
  assume i: "i < length ndvi" and ms: "time_start (ndvi ! i) = Some ms"
  have ok: "inputImage (ndvi ! i)"
    by (rule harmonicLandsat_nth [OF assms i])
  have "fromYMD 1970 1 1 = 0"
    by (simp add: fromYMD_def daysFromCivil_def)
  then show "bandAt (map (features yearMillis) ndvi ! i) ''t'' p =
      Some (real_of_int (ms - fromYMD 1970 1 1) / yearMillis * (2 * pi))"
    using i ms
    by (simp add: bandAt_features [OF ok] independents_eq regressorBands_def timeRadians_def)
qed

text \<open>The instance of C5 for an observation exactly one year after the epoch: \<open>t = 2\<pi>\<close>.\<close>

theorem time_regressor_witness:
  "list_all inputImage [sampleObservation 31556952000 (1 / 2)] \<and>
   (\<exists>hl. harmonicLandsat 31556952000 [sampleObservation 31556952000 (1 / 2)] = Inr hl \<and>
      bandAt (hl ! 0) ''t'' () = Some (2 * pi))"
proof -
  have ok: "list_all inputImage [sampleObservation 31556952000 (1 / 2)]"
    by (simp add: inputImage_sampleObservation)
  have ms: "time_start (sampleObservation 31556952000 (1 / 2)) = Some 31556952000"
    by (simp add: sampleObservation_def)
  from time_regressor [OF ok, of 31556952000] obtain hl where
    hl: "harmonicLandsat 31556952000 [sampleObservation 31556952000 (1 / 2)] = Inr hl" and
    t: "\<forall>i<length [sampleObservation 31556952000 (1 / 2)]. \<forall>ms p.
        time_start ([sampleObservation 31556952000 (1 / 2)] ! i) = Some ms \<longrightarrow>
        bandAt (hl ! i) ''t'' p =
          Some (real_of_int (ms - fromYMD 1970 1 1) / 31556952000 * (2 * pi))"
    by auto
  from t ms have "bandAt (hl ! 0) ''t'' () =
      Some (real_of_int (31556952000 - fromYMD 1970 1 1) / 31556952000 * (2 * pi))"
    by simp
  then have "bandAt (hl ! 0) ''t'' () = Some (2 * pi)"
    by (simp add: fromYMD_def daysFromCivil_def)
  with ok hl show ?thesis by blast
qed

subsection \<open>C6: the fitted value\<close>

text \<open>
  Claim C6. For every observation of the series and every pixel whose coefficient vector
  is defined, the band \<^verbatim>\<open>fitted\<close> attached to the observation is the dot product of the
  coefficient vector with the design row of the observation: the sum, over all
  \<open>2 + 2k\<close> columns, of coefficient times regressor. The coefficients are those of any
  regression result \<open>trend\<close>.
\<close>

theorem fitted_value_dot_product:
  assumes "list_all inputImage ndvi"
  shows "\<exists>hl fitted. harmonicLandsat yearMillis ndvi = Inr hl \<and>
     fittedHarmonic (harmonicTrendCoefficients trend) hl = Inr fitted \<and>
     length hl = length ndvi \<and> length fitted = length ndvi \<and>
     (\<forall>i<length ndvi. \<forall>p cs.
        those (map (\<lambda>n. bandAt (harmonicTrendCoefficients trend) n p) independents) = Some cs
        \<longrightarrow>
        (\<exists>row. those (map (\<lambda>n. bandAt (hl ! i) n p) independents) = Some row \<and>
           length row = 2 + 2 * harmonics \<and> length cs = 2 + 2 * harmonics \<and>
           bandAt (fitted ! i) ''fitted'' p = Some (sum_list (map2 (\<lambda>c x. c * x) cs row))))"
proof -
  let ?hl = "map (features yearMillis) ndvi"
  let ?fitted = "map (fittedImage yearMillis trend) ndvi"
  have hl: "harmonicLandsat yearMillis ndvi = Inr ?hl"
    by (rule harmonicLandsat_input [OF assms])
  have fitted: "fittedHarmonic (harmonicTrendCoefficients trend) ?hl = Inr ?fitted"
    by (rule fittedHarmonic_input [OF assms])
  have dot: "\<exists>row. those (map (\<lambda>n. bandAt (?hl ! i) n p) independents) = Some row \<and>
           length row = 2 + 2 * harmonics \<and> length cs = 2 + 2 * harmonics \<and>
           bandAt (?fitted ! i) ''fitted'' p = Some (sum_list (map2 (\<lambda>c x. c * x) cs row))"
    if i: "i < length ndvi" and
      cs: "those (map (\<lambda>n. bandAt (harmonicTrendCoefficients trend) n p) independents) = Some cs"
    for i p cs
  proof -
    let ?t = "timeRadians yearMillis (the (time_start (ndvi ! i)))"
    let ?row = "[1, ?t, cos ?t, cos (?t * 2), cos (?t * 3), sin ?t, sin (?t * 2), sin (?t * 3)]"
    have ok: "inputImage (ndvi ! i)"
      by (rule harmonicLandsat_nth [OF assms i])
    have row: "those (map (\<lambda>n. bandAt (?hl ! i) n p) independents) = Some ?row"
      using i by (simp add: design_row_features [OF ok] Let_def)
    have c: "[coefBand trend 0 p, coefBand trend 1 p, coefBand trend 2 p, coefBand trend 3 p,
      coefBand trend 4 p, coefBand trend 5 p, coefBand trend 6 p, coefBand trend 7 p] =
      map Some cs"
      using those_Some [OF cs] by (simp only: coefficient_vector)
    then have len: "length cs = 2 + 2 * harmonics"
      by (auto simp: Cons_eq_map_conv harmonics_def)
    have "bandAt (?fitted ! i) ''fitted'' p = Some (sum_list (map2 (\<lambda>c x. c * x) cs ?row))"
      using i by (simp only: nth_map bandAt_fitted [OF ok] fittedBand_dot_product [OF c])
    with row len show ?thesis
      by (intro exI [of _ ?row]) (simp add: harmonics_def)
  qed
  from hl fitted dot show ?thesis by auto
qed

text \<open>
  The instance of C6 for one observation at the epoch (\<open>t = 0\<close>) and the coefficients
  \<open>constant = 1 / 2\<close>, \<open>cos_1 = 1 / 5\<close>: the fitted value is \<open>7 / 10\<close>.
\<close>

theorem fitted_value_dot_product_witness:
  "list_all inputImage [sampleObservation 0 (1 / 2)] \<and>
   (\<exists>hl fitted. harmonicLandsat 31556952000 [sampleObservation 0 (1 / 2)] = Inr hl \<and>
      fittedHarmonic (harmonicTrendCoefficients (sampleTrend (1 / 5) 0)) hl = Inr fitted \<and>
      those (map (\<lambda>n. bandAt (harmonicTrendCoefficients (sampleTrend (1 / 5) 0)) n ())
               independents) = Some [1 / 2, 0, 1 / 5, 0, 0, 0, 0, 0] \<and>
      those (map (\<lambda>n. bandAt (hl ! 0) n ()) independents) = Some [1, 0, 1, 1, 1, 0, 0, 0] \<and>
      bandAt (fitted ! 0) ''fitted'' () = Some (7 / 10))"
proof -
  let ?ndvi = "[sampleObservation 0 (1 / 2)]"
  let ?t = "sampleTrend (1 / 5) 0"
  have ok: "list_all inputImage ?ndvi"
    by (simp add: inputImage_sampleObservation)
  have cs: "those (map (\<lambda>n. bandAt (harmonicTrendCoefficients ?t) n ()) independents) =
      Some [1 / 2, 0, 1 / 5, 0, 0, 0, 0, 0]"
    unfolding coefficient_vector
    by (simp add: coefBand_def sampleTrend_def independents_eq)
  from fitted_value_dot_product [OF ok, of 31556952000 ?t] obtain hl fitted where
    hl: "harmonicLandsat 31556952000 ?ndvi = Inr hl" and
    fitted: "fittedHarmonic (harmonicTrendCoefficients ?t) hl = Inr fitted" and
    dot: "\<forall>i<length ?ndvi. \<forall>p cs.
        those (map (\<lambda>n. bandAt (harmonicTrendCoefficients ?t) n p) independents) = Some cs
        \<longrightarrow>
        (\<exists>row. those (map (\<lambda>n. bandAt (hl ! i) n p) independents) = Some row \<and>
           length row = 2 + 2 * harmonics \<and> length cs = 2 + 2 * harmonics \<and>
           bandAt (fitted ! i) ''fitted'' p = Some (sum_list (map2 (\<lambda>c x. c * x) cs row)))"
    by blast
  from hl have "hl = map (features 31556952000) ?ndvi"
    by (simp add: harmonicLandsat_input [OF ok])
  then have "map (\<lambda>n. bandAt (hl ! 0) n ()) independents =
      map (\<lambda>n. bandAt (features 31556952000 (sampleObservation 0 (1 / 2))) n ()) independents"
    by simp
  then have row: "those (map (\<lambda>n. bandAt (hl ! 0) n ()) independents) =
      Some [1, 0, 1, 1, 1, 0, 0, 0]"
    unfolding design_row_features [OF inputImage_sampleObservation]
    by (simp add: timeRadians_def sampleObservation_def)
  from dot cs obtain row' where
    "those (map (\<lambda>n. bandAt (hl ! 0) n ()) independents) = Some row'"
    "bandAt (fitted ! 0) ''fitted'' () =
       Some (sum_list (map2 (\<lambda>c x. c * x) [1 / 2, 0, 1 / 5, 0, 0, 0, 0, 0] row'))"
    by fastforce
  with row have "bandAt (fitted ! 0) ''fitted'' () = Some (7 / 10)"
    by simp
  with ok hl fitted cs row show ?thesis by blast
qed

subsection \<open>C7: pixels with insufficient data\<close>

text \<open>
  Claim C7. The run on a well-formed, non-empty collection never aborts. At every pixel
  the regression reducer sees one row per valid observation (an observation whose NDVI
  is unmasked there), and these rows are the design matrix of the pixel. For every
  pixel with fewer valid observations than the \<open>2 + 2k\<close> design columns, or with a
  rank-deficient design matrix, the regression gives no coefficient vector, and every
  coefficient, amplitude and phase band and every fitted value is masked at that pixel.
  Every other pixel is unaffected: the results at a pixel \<open>q\<close> are those of any
  collection with the same time series at \<open>q\<close>, whatever the data of the other
  pixels.
\<close>

theorem insufficient_data_is_no_data:
  assumes "list_all inputImage ndvi" and "ndvi \<noteq> []"
  shows "\<exists>hl sel trend img fitted.
     harmonicLandsat yearMillis ndvi = Inr hl \<and>
     mapE (select (independents @ [dependentName])) hl = Inr sel \<and>
     (\<forall>p. length (observationsAt (length independents) p sel) =
            length (validObservations p ndvi) \<and>
          map fst (observationsAt (length independents) p sel) =
            designMatrix yearMillis p ndvi) \<and>
     harmonicTrend ols hl = Inr trend \<and>
     exportedCoefficients hl trend = Inr img \<and>
     fittedHarmonic (harmonicTrendCoefficients trend) hl = Inr fitted \<and>
     length fitted = length ndvi \<and>
     (\<forall>p. length (validObservations p ndvi) < 2 + 2 * harmonics \<or>
          rankDeficient (2 + 2 * harmonics) (designMatrix yearMillis p ndvi) \<longrightarrow>
          trend p = None \<and>
          (\<forall>n\<in>set (independents @ ampNames @ phaseNames). bandAt img n p = None) \<and>
          (\<forall>f\<in>set fitted. bandAt f ''fitted'' p = None)) \<and>
     (\<forall>q ndvi'. list_all inputImage ndvi' \<longrightarrow> pixelSeries q ndvi' = pixelSeries q ndvi \<longrightarrow>
        (\<exists>hl' trend' img' fitted'.
           harmonicLandsat yearMillis ndvi' = Inr hl' \<and> harmonicTrend ols hl' = Inr trend' \<and>
           exportedCoefficients hl' trend' = Inr img' \<and>
           fittedHarmonic (harmonicTrendCoefficients trend') hl' = Inr fitted' \<and>
           trend' q = trend q \<and> bandNames img' = bandNames img \<and>
           valuesAt q img' = valuesAt q img \<and>
           map (\<lambda>f. bandAt f ''fitted'' q) fitted' = map (\<lambda>f. bandAt f ''fitted'' q) fitted))"
proof -
  define run where "run xs =
    (map (features yearMillis) xs,
     (\<lambda>p. linearRegression ols 8 (seriesObservations yearMillis (pixelSeries p xs))))" for xs :: "'a image list"
  define coefImage where "coefImage xs t =
    emptyImage\<lparr>bands := coefficientBands t @ amplitudeBands t @ phaseBands t @
      [(''NDVI_mean'', meanBand xs)]\<rparr>" for xs :: "'a image list" and t
  have sel: "mapE (select (independents @ [dependentName])) (map (features yearMillis) ndvi) =
      Inr (map (regressionInput yearMillis) ndvi)"
  proof (rule mapE_map_Inr)
    fix img assume "img \<in> set ndvi"
    with assms(1) have "inputImage img" by (simp add: list_all_iff)
    then show "select (independents @ [dependentName]) (features yearMillis img) =
        Inr (regressionInput yearMillis img)"
      by (simp only: select_regression_features regressionInput_def)
  qed
  have eight': "length independents = 8" by (simp add: independents_eq)
  have obs: "\<forall>p. length (observationsAt (length independents) p
                (map (regressionInput yearMillis) ndvi)) = length (validObservations p ndvi) \<and>
          map fst (observationsAt (length independents) p
                (map (regressionInput yearMillis) ndvi)) = designMatrix yearMillis p ndvi"
    unfolding eight'
    by (simp add: observationsAt_regressionInput seriesObservations_length
        seriesObservations_rows)
  have runs: "harmonicLandsat yearMillis xs = Inr (fst (run xs)) \<and>
      harmonicTrend ols (fst (run xs)) = Inr (snd (run xs)) \<and>
      exportedCoefficients (fst (run xs)) (snd (run xs)) = Inr (coefImage xs (snd (run xs))) \<and>
      fittedHarmonic (harmonicTrendCoefficients (snd (run xs))) (fst (run xs)) =
        Inr (map (fittedImage yearMillis (snd (run xs))) xs)"
    if "list_all inputImage xs" "xs \<noteq> []" for xs
    using that
    by (simp add: run_def coefImage_def harmonicLandsat_input harmonicTrend_input
        exportedCoefficients_bands fittedHarmonic_input)
  let ?hl = "fst (run ndvi)" and ?trend = "snd (run ndvi)"
  let ?img = "coefImage ndvi ?trend"
  let ?fitted = "map (fittedImage yearMillis ?trend) ndvi"
  have nodata: "?trend p = None \<and>
          (\<forall>n\<in>set (independents @ ampNames @ phaseNames). bandAt ?img n p = None) \<and>
          (\<forall>f\<in>set ?fitted. bandAt f ''fitted'' p = None)"
    if bad: "length (validObservations p ndvi) < 2 + 2 * harmonics \<or>
          rankDeficient (2 + 2 * harmonics) (designMatrix yearMillis p ndvi)" for p
  proof -
    have eight: "2 + 2 * harmonics = 8" by (simp add: harmonics_def)
    have t: "?trend p = None"
      using bad unfolding eight
      by (simp add: run_def linearRegression_insufficient seriesObservations_length
          seriesObservations_rows)
    have b: "bands ?img = coefficientBands ?trend @ amplitudeBands ?trend @
        phaseBands ?trend @ [(''NDVI_mean'', meanBand ndvi)]"
      by (simp add: coefImage_def)
    have d: "\<forall>n\<in>set (independents @ ampNames @ phaseNames). bandAt ?img n p = None"
      using derived_bands_None [OF t b] by blast
    have f: "\<forall>f\<in>set ?fitted. bandAt f ''fitted'' p = None"
    proof
      fix f assume "f \<in> set ?fitted"
      then obtain x where x: "x \<in> set ndvi" "f = fittedImage yearMillis ?trend x" by auto
      from x(1) assms(1) have "inputImage x" by (simp add: list_all_iff)
      then show "bandAt f ''fitted'' p = None"
        by (simp add: x(2) bandAt_fitted fittedBand_None [of ?trend p, OF t])
    qed
    from t d f show ?thesis by blast
  qed
  have indep: "\<exists>hl' trend' img' fitted'.
           harmonicLandsat yearMillis ndvi' = Inr hl' \<and> harmonicTrend ols hl' = Inr trend' \<and>
           exportedCoefficients hl' trend' = Inr img' \<and>
           fittedHarmonic (harmonicTrendCoefficients trend') hl' = Inr fitted' \<and>
           trend' q = ?trend q \<and> bandNames img' = bandNames ?img \<and>
           valuesAt q img' = valuesAt q ?img \<and>
           map (\<lambda>f. bandAt f ''fitted'' q) fitted' = map (\<lambda>f. bandAt f ''fitted'' q) ?fitted"
    if ok': "list_all inputImage ndvi'" and same: "pixelSeries q ndvi' = pixelSeries q ndvi"
    for q ndvi'
  proof -
    let ?trend' = "snd (run ndvi')"
    from pixelSeries_length [OF same] assms(2) have ne': "ndvi' \<noteq> []" by auto
    have t: "?trend' q = ?trend q"
      by (simp add: run_def same)
    have m: "meanBand ndvi' q = meanBand ndvi q"
      by (simp add: meanBand_series same)
    have n: "bandNames (coefImage ndvi' ?trend') = bandNames ?img"
      by (simp add: coefImage_def exported_bandNames)
    have v: "valuesAt q (coefImage ndvi' ?trend') = valuesAt q ?img"
      unfolding coefImage_def
      using t m by (rule exported_valuesAt_cong [where trend' = ?trend' and trend = ?trend])
    have f: "map (\<lambda>f. bandAt f ''fitted'' q) (map (fittedImage yearMillis ?trend') ndvi') =
        map (\<lambda>f. bandAt f ''fitted'' q) ?fitted"
      using assms(1) ok' same t
      by (rule fitted_series_cong [where trend' = ?trend' and trend = ?trend])
    from runs [OF ok' ne'] t n v f show ?thesis by blast
  qed
  have len: "length ?fitted = length ndvi" by simp
  from runs [OF assms] have hl: "fst (run ndvi) = map (features yearMillis) ndvi"
    by (simp add: run_def)
  from runs [OF assms] len nodata indep sel [folded hl] obs show ?thesis by blast
qed

text \<open>
  The instance of C7 for two pixels and one observation whose NDVI is masked at the
  pixel \<open>True\<close>: that pixel has no data in any derived band, and the pixel \<open>False\<close>
  gets the values it gets when the pixel \<open>True\<close> is observed.
\<close>

theorem insufficient_data_is_no_data_witness:
  "list_all inputImage [twoPixelObservation 0 None (Some (1 / 2))] \<and>
   [twoPixelObservation 0 None (Some (1 / 2))] \<noteq> [] \<and>
   length (validObservations True [twoPixelObservation 0 None (Some (1 / 2))])
     < 2 + 2 * harmonics \<and>
   list_all inputImage [twoPixelObservation 0 (Some (3 / 10)) (Some (1 / 2))] \<and>
   pixelSeries False [twoPixelObservation 0 (Some (3 / 10)) (Some (1 / 2))] =
     pixelSeries False [twoPixelObservation 0 None (Some (1 / 2))] \<and>
   (\<exists>hl sel trend img fitted.
      harmonicLandsat 31556952000 [twoPixelObservation 0 None (Some (1 / 2))] = Inr hl \<and>
      mapE (select (independents @ [dependentName])) hl = Inr sel \<and>
      observationsAt (length independents) True sel = [] \<and>
      harmonicTrend zeroSolver hl = Inr trend \<and>
      exportedCoefficients hl trend = Inr img \<and>
      fittedHarmonic (harmonicTrendCoefficients trend) hl = Inr fitted \<and>
      trend True = None \<and>
      bandAt img ''sin_1'' True = None \<and> bandAt img ''amplitude_1'' True = None \<and>
      bandAt img ''phase_1'' True = None \<and> bandAt (fitted ! 0) ''fitted'' True = None \<and>
      (\<exists>hl' trend' img' fitted'.
         harmonicLandsat 31556952000 [twoPixelObservation 0 (Some (3 / 10)) (Some (1 / 2))]
           = Inr hl' \<and>
         harmonicTrend zeroSolver hl' = Inr trend' \<and>
         exportedCoefficients hl' trend' = Inr img' \<and>
         fittedHarmonic (harmonicTrendCoefficients trend') hl' = Inr fitted' \<and>
         trend' False = trend False \<and> valuesAt False img' = valuesAt False img \<and>
         map (\<lambda>f. bandAt f ''fitted'' False) fitted' =
           map (\<lambda>f. bandAt f ''fitted'' False) fitted))"
proof -
  let ?W = "[twoPixelObservation 0 None (Some (1 / 2))]"
  let ?W' = "[twoPixelObservation 0 (Some (3 / 10)) (Some (1 / 2))]"
  have input: "inputImage (twoPixelObservation ms a b)" for ms a b
    by (simp add: inputImage_def twoPixelObservation_def bandNames_def dependentName_def
        independents_eq)
  have ok: "list_all inputImage ?W" and ok': "list_all inputImage ?W'"
    by (simp_all add: input)
  have ne: "?W \<noteq> []" by simp
  have few: "length (validObservations True ?W) < 2 + 2 * harmonics"
    by (simp add: validObservations_def bandAt_def twoPixelObservation_def harmonics_def)
  have same: "pixelSeries False ?W' = pixelSeries False ?W"
    by (simp add: pixelSeries_def bandAt_def twoPixelObservation_def)
  from insufficient_data_is_no_data [OF ok ne, of 31556952000 zeroSolver]
  obtain hl sel trend img fitted where
    s: "mapE (select (independents @ [dependentName])) hl = Inr sel"
      "\<forall>p. length (observationsAt (length independents) p sel) =
            length (validObservations p ?W) \<and>
          map fst (observationsAt (length independents) p sel) =
            designMatrix 31556952000 p ?W" and
    r: "harmonicLandsat 31556952000 ?W = Inr hl" "harmonicTrend zeroSolver hl = Inr trend"
      "exportedCoefficients hl trend = Inr img"
      "fittedHarmonic (harmonicTrendCoefficients trend) hl = Inr fitted"
      "length fitted = length ?W" and
    nodata: "\<forall>p. length (validObservations p ?W) < 2 + 2 * harmonics \<or>
          rankDeficient (2 + 2 * harmonics) (designMatrix 31556952000 p ?W) \<longrightarrow>
          trend p = None \<and>
          (\<forall>n\<in>set (independents @ ampNames @ phaseNames). bandAt img n p = None) \<and>
          (\<forall>f\<in>set fitted. bandAt f ''fitted'' p = None)" and
    indep: "\<forall>q ndvi'. list_all inputImage ndvi' \<longrightarrow> pixelSeries q ndvi' = pixelSeries q ?W \<longrightarrow>
        (\<exists>hl' trend' img' fitted'.
           harmonicLandsat 31556952000 ndvi' = Inr hl' \<and> harmonicTrend zeroSolver hl' = Inr trend' \<and>
           exportedCoefficients hl' trend' = Inr img' \<and>
           fittedHarmonic (harmonicTrendCoefficients trend') hl' = Inr fitted' \<and>
           trend' q = trend q \<and> bandNames img' = bandNames img \<and>
           valuesAt q img' = valuesAt q img \<and>
           map (\<lambda>f. bandAt f ''fitted'' q) fitted' = map (\<lambda>f. bandAt f ''fitted'' q) fitted)"
    by blast
  have "length (validObservations True ?W) = 0"
    by (simp add: validObservations_def bandAt_def twoPixelObservation_def)
  moreover from s(2) have "length (observationsAt (length independents) True sel) =
      length (validObservations True ?W)"
    by blast
  ultimately have s': "observationsAt (length independents) True sel = []"
    by simp
  from nodata few have
    t: "trend True = None" and
    d: "\<forall>n\<in>set (independents @ ampNames @ phaseNames). bandAt img n True = None" and
    f: "\<forall>f\<in>set fitted. bandAt f ''fitted'' True = None"
    by blast+
  from d have d': "bandAt img ''sin_1'' True = None" "bandAt img ''amplitude_1'' True = None"
    "bandAt img ''phase_1'' True = None"
    by (simp_all add: independents_eq names_eq)
  from r(5) have "fitted ! 0 \<in> set fitted" by simp
  with f have f': "bandAt (fitted ! 0) ''fitted'' True = None" by blast
  from indep ok' same obtain hl' trend' img' fitted' where
    "harmonicLandsat 31556952000 ?W' = Inr hl'" "harmonicTrend zeroSolver hl' = Inr trend'"
    "exportedCoefficients hl' trend' = Inr img'"
    "fittedHarmonic (harmonicTrendCoefficients trend') hl' = Inr fitted'"
    "trend' False = trend False" "valuesAt False img' = valuesAt False img"
    "map (\<lambda>f. bandAt f ''fitted'' False) fitted' = map (\<lambda>f. bandAt f ''fitted'' False) fitted"
    by blast
  with ok ne few ok' same r s(1) s' t d' f' show ?thesis by blast
qed

subsection \<open>C8: the fixed-point encoding\<close>

text \<open>
  Claim C8. A coefficient value \<open>v\<close> is stored as \<open>round (v * 10000)\<close> clamped to the
  16-bit signed range. Where no clamping occurs, that is where the rounded number lies
  in the range, the stored number of the exported coefficient raster divided by 10000
  is within 0.0001 of \<open>v\<close>.
\<close>

theorem quantization_round_trip:
  assumes "bandAt coefficients n p = Some v" and "geometry p"
    and "- 32768 \<le> round (v * 10000)" and "round (v * 10000) \<le> 32767"
  shows "\<exists>q. bandAt (outputImage geometry coefficients) n p = Some (real_of_int q) \<and>
             q = round (v * 10000) \<and> \<bar>real_of_int q / 10000 - v\<bar> \<le> 0.0001"
proof -
  have "bandAt (outputImage geometry coefficients) n p = Some (real_of_int (toShort (v * 10000)))"
    using assms(1,2) by (simp add: outputImage_def bandAt_clip bandAt_mapBands)
  moreover have "toShort (v * 10000) = round (v * 10000)"
    using assms(3,4) by (rule toShort_unclamped)
  moreover have "\<bar>real_of_int (round (v * 10000)) / 10000 - v\<bar> \<le> 0.0001"
    using round_scaled_error [of v] by simp
  ultimately show ?thesis by simp
qed

text \<open>The instance of C8 for the value \<open>1 / 2\<close>, stored as 5000.\<close>

theorem quantization_round_trip_witness:
  "bandAt (constantImage (1 / 2) :: unit image) ''constant'' () = Some (1 / 2) \<and>
   - 32768 \<le> round ((1 / 2 :: real) * 10000) \<and> round ((1 / 2 :: real) * 10000) \<le> 32767 \<and>
   (\<exists>q. bandAt (outputImage (\<lambda>p. True) (constantImage (1 / 2) :: unit image)) ''constant'' () =
          Some (real_of_int q) \<and>
        q = round ((1 / 2 :: real) * 10000) \<and> \<bar>real_of_int q / 10000 - 1 / 2\<bar> \<le> 0.0001)"
proof -
  have b: "bandAt (constantImage (1 / 2) :: unit image) ''constant'' () = Some (1 / 2)"
    by (simp add: bandAt_def constantImage_def)
  have lo: "- 32768 \<le> round ((1 / 2 :: real) * 10000)" by simp
  have hi: "round ((1 / 2 :: real) * 10000) \<le> 32767" by simp
  show ?thesis
    using quantization_round_trip [OF b _ lo hi, of "\<lambda>p. True"] b lo hi by simp
qed

subsection \<open>C10: the positional labels of the yearly export\<close>



end
